theory Spec2Isabelle
  imports Complex_Main
begin

section \<open>Numeric values of the tables\<close>

text \<open>
  The scripts keep prices and percentages in float64 columns.  A column value is modelled
  as a finite real number, one of the two infinities, or NaN (the missing-value marker).
  Finite arithmetic is exact: rounding, overflow to infinity and the sign of zero are not
  modelled.  What is modelled is everything the scripts' control flow depends on:
  NaN never compares, NaN is skipped by the column reductions, and a column divided by
  zero yields infinities or NaN without raising.
\<close>

datatype pyfloat = Fin real | PInf | NInf | NaN

text \<open>Python's \<^verbatim>\<open>a < b\<close> on floats: false as soon as one side is NaN.\<close>

fun fl_lt :: "pyfloat \<Rightarrow> pyfloat \<Rightarrow> bool" where
  "fl_lt (Fin x) (Fin y) = (x < y)"
| "fl_lt (Fin x) PInf = True"
| "fl_lt NInf (Fin y) = True"
| "fl_lt NInf PInf = True"
| "fl_lt _ _ = False"

definition fl_gt :: "pyfloat \<Rightarrow> pyfloat \<Rightarrow> bool" where
  "fl_gt a b = fl_lt b a"

text \<open>Python's \<^verbatim>\<open>a <= b\<close>.\<close>

definition fl_le :: "pyfloat \<Rightarrow> pyfloat \<Rightarrow> bool" where
  "fl_le a b = (a \<noteq> NaN \<and> b \<noteq> NaN \<and> \<not> fl_lt b a)"

text \<open>Elementwise column arithmetic (numpy semantics: no exception, IEEE special values).\<close>

fun fl_sub :: "pyfloat \<Rightarrow> pyfloat \<Rightarrow> pyfloat" where
  "fl_sub (Fin x) (Fin y) = Fin (x - y)"
| "fl_sub NaN _ = NaN"
| "fl_sub _ NaN = NaN"
| "fl_sub PInf PInf = NaN"
| "fl_sub NInf NInf = NaN"
| "fl_sub PInf _ = PInf"
| "fl_sub NInf _ = NInf"
| "fl_sub (Fin x) PInf = NInf"
| "fl_sub (Fin x) NInf = PInf"

fun fl_div :: "pyfloat \<Rightarrow> pyfloat \<Rightarrow> pyfloat" where
  "fl_div (Fin x) (Fin y) =
     (if y \<noteq> 0 then Fin (x / y)
      else if 0 < x then PInf else if x < 0 then NInf else NaN)"
| "fl_div NaN _ = NaN"
| "fl_div _ NaN = NaN"
| "fl_div (Fin x) _ = Fin 0"
| "fl_div PInf (Fin y) = (if y < 0 then NInf else PInf)"
| "fl_div NInf (Fin y) = (if y < 0 then PInf else NInf)"
| "fl_div _ _ = NaN"

fun fl_mul :: "pyfloat \<Rightarrow> pyfloat \<Rightarrow> pyfloat" where
  "fl_mul (Fin x) (Fin y) = Fin (x * y)"
| "fl_mul NaN _ = NaN"
| "fl_mul _ NaN = NaN"
| "fl_mul PInf (Fin y) = (if 0 < y then PInf else if y < 0 then NInf else NaN)"
| "fl_mul NInf (Fin y) = (if 0 < y then NInf else if y < 0 then PInf else NaN)"
| "fl_mul (Fin x) PInf = (if 0 < x then PInf else if x < 0 then NInf else NaN)"
| "fl_mul (Fin x) NInf = (if 0 < x then NInf else if x < 0 then PInf else NaN)"
| "fl_mul PInf PInf = PInf"
| "fl_mul NInf NInf = PInf"
| "fl_mul _ _ = NInf"

text \<open>
  The normalisation both scripts apply to a price column:
  \<^verbatim>\<open>((price - ref) / ref) * 100\<close>.
\<close>

definition pct_from :: "pyfloat \<Rightarrow> pyfloat \<Rightarrow> pyfloat" where
  "pct_from ref v = fl_mul (fl_div (fl_sub v ref) ref) (Fin 100)"

section \<open>The normalisation in float64\<close>

text \<open>
  The percent column is computed in float64, where above it is computed exactly.  For the
  size of the rounding error the same expression is given here with every operation
  rounded to the nearest float64, ties to the even significand.  The exponent range is
  taken to be unbounded: results that overflow or are subnormal in float64 are not
  modelled.
\<close>

text \<open>The nearest integer, ties to the even one.\<close>

definition round_half_even :: "real \<Rightarrow> int" where
  "round_half_even y =
     (let f = \<lfloor>y\<rfloor>; d = y - of_int f
      in if d < 1 / 2 then f else if 1 / 2 < d then f + 1 else if even f then f else f + 1)"

text \<open>
  The nearest number with a significand of 53 bits: a multiple of the unit in the last
  place of the binade of \<open>x\<close>.
\<close>

definition f64 :: "real \<Rightarrow> real" where
  "f64 x =
     (if x = 0 then 0
      else (let ulp = 2 powr of_int (\<lfloor>log 2 \<bar>x\<bar>\<rfloor> - 52)
            in of_int (round_half_even (x / ulp)) * ulp))"

text \<open>
  \<^verbatim>\<open>((price - ref) / ref) * 100\<close> on float64 values, for a reference price other than
  zero.
\<close>

definition pct_from_f64 :: "real \<Rightarrow> real \<Rightarrow> real" where
  "pct_from_f64 ref v = f64 (f64 (f64 (v - ref) / ref) * 100)"

text \<open>
  The inverse conversion of the specification, \<^verbatim>\<open>ref * (1 + percent / 100)\<close>, on float64
  values.
\<close>

definition value_from_pct_f64 :: "real \<Rightarrow> real \<Rightarrow> real" where
  "value_from_pct_f64 ref p = f64 (ref * f64 (1 + f64 (p / 100)))"

section \<open>Column reductions of pandas\<close>

datatype py_error =
    ValueError_argmin_empty
  | Error_argmin_all_NA
  | IndexError_iloc

text \<open>
  \<^verbatim>\<open>numpy.argmin\<close> on a column without NaN: the position of the first occurrence of the
  minimum; \<open>None\<close> on the empty column, where numpy raises ValueError.
\<close>

fun argmin :: "pyfloat list \<Rightarrow> nat option" where
  "argmin [] = None"
| "argmin (x # xs) =
     (case argmin xs of
        None \<Rightarrow> Some 0
      | Some j \<Rightarrow> (if fl_le x (xs ! j) then Some 0 else Some (Suc j)))"

text \<open>The reductions that skip NaN first put plus infinity in the place of every NaN.\<close>

definition fillna_inf :: "pyfloat \<Rightarrow> pyfloat" where
  "fillna_inf x = (if x = NaN then PInf else x)"

text \<open>
  \<^verbatim>\<open>Series.idxmin()\<close> (skipna): the row of the first occurrence of the minimum of the
  column with its NaN cells filled.  A NaN cell is therefore returned when it comes before
  every plus infinity and the column has no smaller number.  On an empty column it raises
  ValueError.  On a column of NaN only it raises as well in recent pandas, and in older
  pandas it returns NaN, on which the \<^verbatim>\<open>.loc\<close> lookup that follows every call in the
  scripts raises KeyError: either way the run stops there.
\<close>

definition idxmin :: "pyfloat list \<Rightarrow> py_error + nat" where
  "idxmin xs =
     (case argmin (map fillna_inf xs) of
        None \<Rightarrow> Inl ValueError_argmin_empty
      | Some i \<Rightarrow> if list_all (\<lambda>x. x = NaN) xs then Inl Error_argmin_all_NA else Inr i)"

text \<open>\<^verbatim>\<open>Series.min()\<close> (skipna): the smallest value that is not NaN, NaN when there is none.\<close>

fun series_min :: "pyfloat list \<Rightarrow> pyfloat" where
  "series_min [] = NaN"
| "series_min (x # xs) =
     (let m = series_min xs
      in if x = NaN then m else if m = NaN then x else if fl_lt m x then m else x)"

section \<open>btc\_accumulation\_support.py: the loop body over the cycles\<close>

text \<open>
  Dates are day numbers (days since 1970-01-01): every timestamp of the script is
  normalised to midnight, so a difference of two dates is a whole number of days.
  \<open>TODAY\<close> is the second, effective assignment of the script (2026-02-25).
\<close>

definition TODAY :: int where
  "TODAY = 20509"

definition PLOT_DAYS :: int where
  "PLOT_DAYS = 1100"

text \<open>A row of the table \<open>btc\<close> as it is after loading: sorted ascending by date.\<close>

record btc_row =
  date :: int
  btc_price :: pyfloat

text \<open>
  An entry of \<open>CYCLES\<close>, with the fields the statistics read (\<open>top_date\<close> is the key
  \<^verbatim>\<open>'top'\<close>).
\<close>

record cycle =
  halving :: int
  top_date :: int
  top_price :: real
  confirmed :: bool
  exclude :: bool

record chunk_row = btc_row +
  days :: int
  pct :: pyfloat

definition cycle_end :: "cycle \<Rightarrow> int" where
  "cycle_end c =
     (let end = halving c + PLOT_DAYS
      in if \<not> confirmed c then min end TODAY else end)"

text \<open>The slice of the cycle with its two derived columns \<open>days\<close> and \<open>pct\<close>.\<close>

definition btc_chunk :: "btc_row list \<Rightarrow> cycle \<Rightarrow> chunk_row list" where
  "btc_chunk btc c =
     map (\<lambda>r. \<lparr>date = date r, btc_price = btc_price r,
                days = date r - halving c,
                pct = pct_from (Fin (top_price c)) (btc_price r)\<rparr>)
         (filter (\<lambda>r. halving c \<le> date r \<and> date r \<le> cycle_end c) btc)"

record cycle_stats =
  low_pct :: pyfloat
  low_day :: int
  low_price :: pyfloat
  bear_low_pct :: "pyfloat option"
  bear_low_day :: "int option"
  bear_low_price :: "pyfloat option"
  held :: "bool option"

text \<open>
  The statistics of one cycle (the accumulation low, the bear market low, the verdict).
  An uncaught exception of the loop body is an \<open>Inl\<close> result: it ends the run.
\<close>

definition cycle_body :: "btc_row list \<Rightarrow> cycle \<Rightarrow> py_error + cycle_stats" where
  "cycle_body btc c =
     (let chunk = btc_chunk btc c;
          top_day = top_date c - halving c;
          accum = filter (\<lambda>r. days r \<le> 200) chunk
      in case idxmin (map pct accum) of
           Inl e \<Rightarrow> Inl e
         | Inr low_idx \<Rightarrow>
             (let low_pct = pct (accum ! low_idx);
                  low_day = days (accum ! low_idx);
                  low_price = btc_price (accum ! low_idx);
                  post_top = filter (\<lambda>r. top_day < days r) chunk
              in if 0 < length post_top
                 then (let bear_low_pct = series_min (map pct post_top)
                       in case idxmin (map pct post_top) of
                            Inl e \<Rightarrow> Inl e
                          | Inr bear_idx \<Rightarrow>
                              Inr \<lparr>low_pct = low_pct, low_day = low_day,
                                    low_price = low_price,
                                    bear_low_pct = Some bear_low_pct,
                                    bear_low_day = Some (days (post_top ! bear_idx)),
                                    bear_low_price = Some (btc_price (post_top ! bear_idx)),
                                    held = Some (fl_gt bear_low_pct low_pct)\<rparr>)
                 else Inr \<lparr>low_pct = low_pct, low_day = low_day,
                           low_price = low_price,
                           bear_low_pct = None, bear_low_day = None,
                           bear_low_price = None, held = None\<rparr>))"

text \<open>The two windows of a cycle, named for the statements below.\<close>

definition top_day :: "cycle \<Rightarrow> int" where
  "top_day c = top_date c - halving c"

definition accum :: "btc_row list \<Rightarrow> cycle \<Rightarrow> chunk_row list" where
  "accum btc c = filter (\<lambda>r. days r \<le> 200) (btc_chunk btc c)"

definition post_top :: "btc_row list \<Rightarrow> cycle \<Rightarrow> chunk_row list" where
  "post_top btc c = filter (\<lambda>r. top_day c < days r) (btc_chunk btc c)"

section \<open>stocks\_accumulation.py: the loop body over the phases of a ticker\<close>

text \<open>The constants of this script: \<open>TODAY\<close> is 2026-02-26 here.\<close>

definition TODAY_stocks :: int where
  "TODAY_stocks = 20510"

definition PLOT_DAYS_stocks :: int where
  "PLOT_DAYS_stocks = 504"

text \<open>
  A row of the frame \<open>df\<close> of a ticker: the index is the trading date, the one column is
  the closing price.  Index labels are taken to be unique, so that a \<^verbatim>\<open>.loc\<close> lookup
  of a label names one row, which is given here by its position.
\<close>

record stock_row =
  index :: int
  price :: pyfloat

record stock_chunk_row = stock_row +
  td :: nat
  pct_s :: pyfloat

definition end_dt :: "int \<Rightarrow> int" where
  "end_dt bottom_dt = min (bottom_dt + PLOT_DAYS_stocks * 2) TODAY_stocks"

text \<open>\<^verbatim>\<open>df[mask]\<close>: the rows from the bottom date to the end date.\<close>

definition stock_slice :: "stock_row list \<Rightarrow> int \<Rightarrow> stock_row list" where
  "stock_slice df bottom_dt =
     filter (\<lambda>r. bottom_dt \<le> index r \<and> index r \<le> end_dt bottom_dt) df"

text \<open>
  The slice with its derived columns: \<open>td\<close> counts the rows from 0, \<open>pct\<close> is relative to
  the price of the first row (\<open>bottom_price\<close>).  Only called on a slice of ten rows or more.
\<close>

definition stock_chunk :: "stock_row list \<Rightarrow> stock_chunk_row list" where
  "stock_chunk sl =
     (let bottom_price = price (sl ! 0)
      in map (\<lambda>(i, r). \<lparr>index = index r, price = price r, td = i,
                         pct_s = pct_from bottom_price (price r)\<rparr>)
             (enumerate 0 sl))"

record phase_stats =
  low_pct_s :: pyfloat
  low_td :: nat
  low_price_s :: pyfloat
  after_low :: "pyfloat option"
  after_low_td :: "nat option"
  after_low_px :: "pyfloat option"
  held_s :: "bool option"

text \<open>
  The statistics of a slice with its derived columns: the low of the first 200 trading
  days, the low after them, and the verdict (the lines after the normalisation).
\<close>

definition phase_lows :: "stock_chunk_row list \<Rightarrow> py_error + phase_stats" where
  "phase_lows chunk =
     (let first200 = filter (\<lambda>r. td r \<le> 200) chunk
      in case idxmin (map pct_s first200) of
           Inl e \<Rightarrow> Inl e
         | Inr low_idx \<Rightarrow>
             (let low_pct = pct_s (first200 ! low_idx);
                  low_td = td (first200 ! low_idx);
                  low_price = price (first200 ! low_idx);
                  after200 = filter (\<lambda>r. 200 < td r) chunk
              in if 0 < length after200
                 then (let after_low = series_min (map pct_s after200)
                       in case idxmin (map pct_s after200) of
                            Inl e \<Rightarrow> Inl e
                          | Inr k \<Rightarrow>
                              Inr \<lparr>low_pct_s = low_pct, low_td = low_td,
                                    low_price_s = low_price,
                                    after_low = Some after_low,
                                    after_low_td = Some (td (after200 ! k)),
                                    after_low_px = Some (price (after200 ! k)),
                                    held_s = Some (fl_gt after_low low_pct)\<rparr>)
                 else Inr \<lparr>low_pct_s = low_pct, low_td = low_td,
                           low_price_s = low_price,
                           after_low = None, after_low_td = None,
                           after_low_px = None, held_s = None\<rparr>))"

text \<open>
  The body of the loop over the phases.  \<open>Inr None\<close> is its \<^verbatim>\<open>continue\<close>: the phase is
  skipped, nothing is printed or drawn for it, and the loop goes on.  An uncaught
  exception is an \<open>Inl\<close> result: it ends the run.
\<close>

definition phase_body :: "stock_row list \<Rightarrow> int \<Rightarrow> py_error + phase_stats option" where
  "phase_body df bottom_dt =
     (let sl = stock_slice df bottom_dt
      in if length sl < 10 then Inr None
         else case phase_lows (stock_chunk sl) of
                Inl e \<Rightarrow> Inl e
              | Inr s \<Rightarrow> Inr (Some s))"

text \<open>The two windows of a phase, named for the statements below.\<close>

definition first200 :: "stock_row list \<Rightarrow> int \<Rightarrow> stock_chunk_row list" where
  "first200 df bottom_dt =
     filter (\<lambda>r. td r \<le> 200) (stock_chunk (stock_slice df bottom_dt))"

definition after200 :: "stock_row list \<Rightarrow> int \<Rightarrow> stock_chunk_row list" where
  "after200 df bottom_dt =
     filter (\<lambda>r. 200 < td r) (stock_chunk (stock_slice df bottom_dt))"

section \<open>btc\_dashboard.py and btc\_onchain\_dashboard.py: zones and long-term-holder supply\<close>

text \<open>
  \<^verbatim>\<open>mvrv_zone(v)\<close>: the label and the colour of an MVRV Z-Score.  The bound 3.7 is read
  as the real number: the float64 nearest to it has no float64 between it and 3.7, so a
  float is below the one exactly when it is below the other.
\<close>

definition mvrv_zone :: "pyfloat \<Rightarrow> string \<times> string" where
  "mvrv_zone v =
     (if fl_lt v (Fin 0) then (''EXTREME FEAR'', ''#00ff88'')
      else if fl_lt v (Fin 3.7) then (''FAIR VALUE'', ''#ffd700'')
      else if fl_lt v (Fin 7) then (''CAUTION'', ''#ff8c00'')
      else (''SELL ZONE'', ''#ff4444''))"

text \<open>
  A record of \<^verbatim>\<open>lth_supply.json\<close>.  The two conversions of pandas are parameters of the
  loaders: \<open>to_datetime\<close> gives the day number of a date, \<open>None\<close> for a missing one (NaT);
  \<open>to_numeric\<close> is the coercion with \<^verbatim>\<open>errors='coerce'\<close>, which gives NaN for a cell
  that is not a number.
\<close>

record ('d, 'v) lth_json =
  d :: 'd
  longTermHodlerSupplyBtc :: 'v

record lth_row =
  lth_date :: "int option"
  lth_supply :: pyfloat

text \<open>btc\_dashboard.py, \<^verbatim>\<open>load_data\<close>: the frame \<open>lth\<close> before the merge.\<close>

definition load_lth ::
    "('d \<Rightarrow> int option) \<Rightarrow> ('v \<Rightarrow> pyfloat) \<Rightarrow> ('d, 'v) lth_json list \<Rightarrow> lth_row list" where
  "load_lth to_datetime to_numeric raw =
     (let lth = map (\<lambda>j. \<lparr>lth_date = to_datetime (d j),
                            lth_supply = to_numeric (longTermHodlerSupplyBtc j)\<rparr>) raw
      in filter (\<lambda>r. fl_gt (lth_supply r) (Fin 0)) lth)"

text \<open>
  btc\_onchain\_dashboard.py: the frame \<open>lth\<close> with the columns \<open>date\<close> and \<open>value\<close>.
  \<^verbatim>\<open>dropna()\<close> removes the rows with a missing date or a NaN value, so a row that is
  kept has a date.  \<^verbatim>\<open>sort_values('date')\<close> orders the rows by date (which of two rows
  of one date comes first is left open by pandas; here the sort is stable).
\<close>

record value_row =
  date_oc :: int
  value_oc :: pyfloat

definition dropna :: "(int option \<times> pyfloat) list \<Rightarrow> value_row list" where
  "dropna rows =
     List.map_filter
       (\<lambda>(dt, v). case dt of
            None \<Rightarrow> None
          | Some t \<Rightarrow> if v = NaN then None else Some \<lparr>date_oc = t, value_oc = v\<rparr>)
       rows"

definition load_lth_onchain ::
    "('d \<Rightarrow> int option) \<Rightarrow> ('v \<Rightarrow> pyfloat) \<Rightarrow> ('d, 'v) lth_json list \<Rightarrow> value_row list" where
  "load_lth_onchain to_datetime to_numeric lth_raw =
     (let lth = map (\<lambda>j. (to_datetime (d j), to_numeric (longTermHodlerSupplyBtc j))) lth_raw;
          lth = sort_key date_oc (dropna lth)
      in filter (\<lambda>r. fl_gt (value_oc r) (Fin 0)) lth)"

text \<open>\<^verbatim>\<open>float(lth['value'].iloc[-1])\<close>: the last value, IndexError on an empty frame.\<close>

definition latest_lth :: "value_row list \<Rightarrow> py_error + pyfloat" where
  "latest_lth lth = (if lth = [] then Inl IndexError_iloc else Inr (value_oc (last lth)))"

text \<open>The rows drawn in the third panel: from 2012-01-01 (day 15340) on.\<close>

definition lth_plot :: "value_row list \<Rightarrow> value_row list" where
  "lth_plot lth = filter (\<lambda>r. 15340 \<le> date_oc r) lth"

section \<open>Vocabulary of the specification\<close>

text \<open>
  The specification speaks of the minimum percent of a window.  A value is the minimum of a
  column when it occurs in the column, is a number, and no number of the column is below it.
\<close>

definition is_window_min :: "pyfloat \<Rightarrow> pyfloat list \<Rightarrow> bool" where
  "is_window_min m xs = (m \<in> set xs \<and> m \<noteq> NaN \<and> (\<forall>x \<in> set xs. x \<noteq> NaN \<longrightarrow> fl_le m x))"

definition has_value :: "pyfloat list \<Rightarrow> bool" where
  "has_value xs = (\<exists>x \<in> set xs. x \<noteq> NaN)"

text \<open>
  The inverse conversion as the specification words it,
  \<^verbatim>\<open>value = reference_price * (1 + percent / 100)\<close>; the scripts have no such function.
\<close>

definition spec_percent_to_value :: "real \<Rightarrow> real \<Rightarrow> real" where
  "spec_percent_to_value ref p = ref * (1 + p / 100)"

text \<open>A strictly positive column value: a positive number or plus infinity.\<close>

definition strictly_positive :: "pyfloat \<Rightarrow> bool" where
  "strictly_positive x = (case x of Fin y \<Rightarrow> 0 < y | PInf \<Rightarrow> True | _ \<Rightarrow> False)"

section \<open>Sample inputs\<close>

definition btc_5 :: "btc_row list" where
  "btc_5 = [\<lparr>date = 0, btc_price = Fin 100\<rparr>, \<lparr>date = 50, btc_price = Fin 40\<rparr>,
            \<lparr>date = 200, btc_price = Fin 60\<rparr>, \<lparr>date = 400, btc_price = Fin 90\<rparr>,
            \<lparr>date = 800, btc_price = Fin 40\<rparr>]"

definition cycle_0 :: cycle where
  "cycle_0 = \<lparr>halving = 0, top_date = 200, top_price = 100, confirmed = True, exclude = False\<rparr>"

definition df_202 :: "stock_row list" where
  "df_202 = map (\<lambda>i. \<lparr>index = int i,
                        price = Fin (if i = 150 then 90 else if i = 201 then 95 else 100)\<rparr>)
                [0..<202]"

definition cycle_late_top :: cycle where
  "cycle_late_top = \<lparr>halving = 0, top_date = 900, top_price = 100, confirmed = True, exclude = False\<rparr>"

definition df_10 :: "stock_row list" where
  "df_10 = map (\<lambda>i. \<lparr>index = int i, price = Fin (if i = 3 \<or> i = 7 then 80 else 100)\<rparr>) [0..<10]"

definition btc_tie :: "btc_row list" where
  "btc_tie = [\<lparr>date = 0, btc_price = Fin 100\<rparr>, \<lparr>date = 50, btc_price = Fin 40\<rparr>,
              \<lparr>date = 120, btc_price = Fin 40\<rparr>, \<lparr>date = 200, btc_price = Fin 60\<rparr>]"

definition cycle_neg :: cycle where
  "cycle_neg = \<lparr>halving = 0, top_date = 200, top_price = - 100, confirmed = True, exclude = False\<rparr>"

definition cycle_zero :: cycle where
  "cycle_zero = \<lparr>halving = 0, top_date = 200, top_price = 0, confirmed = True, exclude = False\<rparr>"

definition btc_scenario :: "btc_row list" where
  "btc_scenario = [\<lparr>date = 0, btc_price = Fin 100\<rparr>, \<lparr>date = 50, btc_price = Fin 40\<rparr>,
            \<lparr>date = 200, btc_price = Fin 60\<rparr>, \<lparr>date = 400, btc_price = Fin 90\<rparr>,
            \<lparr>date = 800, btc_price = Fin 30\<rparr>]"

definition btc_scenario_70 :: "btc_row list" where
  "btc_scenario_70 = [\<lparr>date = 0, btc_price = Fin 100\<rparr>, \<lparr>date = 50, btc_price = Fin 40\<rparr>,
            \<lparr>date = 200, btc_price = Fin 60\<rparr>, \<lparr>date = 400, btc_price = Fin 90\<rparr>,
            \<lparr>date = 800, btc_price = Fin 70\<rparr>]"

definition btc_late_start :: "btc_row list" where
  "btc_late_start = [\<lparr>date = 300, btc_price = Fin 50\<rparr>, \<lparr>date = 400, btc_price = Fin 60\<rparr>]"

definition df_9 :: "stock_row list" where
  "df_9 = map (\<lambda>i. \<lparr>index = int i, price = Fin 100\<rparr>) [0..<9]"

text \<open>Cells of a JSON file and a coercion of them, for the sample inputs.\<close>

datatype json_cell = JNumber real | JString string | JNull

fun coerce_cell :: "json_cell \<Rightarrow> pyfloat" where
  "coerce_cell (JNumber x) = Fin x"
| "coerce_cell (JString s) = NaN"
| "coerce_cell JNull = NaN"

definition lth_sample :: "(int, json_cell) lth_json list" where
  "lth_sample =
     [\<lparr>d = 17000, longTermHodlerSupplyBtc = JNumber 14000000\<rparr>,
      \<lparr>d = 16000, longTermHodlerSupplyBtc = JNumber 0\<rparr>,
      \<lparr>d = 16500, longTermHodlerSupplyBtc = JString ''n/a''\<rparr>,
      \<lparr>d = 16800, longTermHodlerSupplyBtc = JNumber (- 5)\<rparr>,
      \<lparr>d = 15000, longTermHodlerSupplyBtc = JNumber 12000000\<rparr>,
      \<lparr>d = 16900, longTermHodlerSupplyBtc = JNull\<rparr>]"

text \<open>
  The five points of the scenario as a normalised slice of stocks\_accumulation.py, the
  offsets read as values of the column \<open>td\<close> and the reference price 100.
\<close>

definition scenario_chunk :: "real \<Rightarrow> stock_chunk_row list" where
  "scenario_chunk last_value =
     map (\<lambda>(t, v). \<lparr>index = int t, price = Fin v, td = t,
                     pct_s = pct_from (Fin 100) (Fin v)\<rparr>)
       [(0, 100), (50, 40), (200, 60), (400, 90), (800, last_value)]"

section \<open>Facts about the float order and the reductions\<close>

lemma fl_lt_irrefl: "\<not> fl_lt x x"
  by (cases x) simp_all

lemma fl_lt_trans: "fl_lt a b \<Longrightarrow> fl_lt b c \<Longrightarrow> fl_lt a c"
  by (cases a; cases b; cases c) simp_all

lemma fl_le_refl: "x \<noteq> NaN \<Longrightarrow> fl_le x x"
  by (simp add: fl_le_def fl_lt_irrefl)

lemma fl_le_trans: "fl_le a b \<Longrightarrow> fl_le b c \<Longrightarrow> fl_le a c"
  by (cases a; cases b; cases c) (simp_all add: fl_le_def)

lemma fl_le_iff: "fl_le a b \<longleftrightarrow> a \<noteq> NaN \<and> b \<noteq> NaN \<and> (fl_lt a b \<or> a = b)"
  by (cases a; cases b) (auto simp: fl_le_def)

lemma fl_total: "a \<noteq> NaN \<Longrightarrow> b \<noteq> NaN \<Longrightarrow> fl_le a b \<or> fl_lt b a"
  by (simp add: fl_le_def)

lemma fl_lt_not_NaN: "fl_lt a b \<Longrightarrow> a \<noteq> NaN \<and> b \<noteq> NaN"
  by (cases a; cases b) simp_all

lemma fl_le_lt_trans: "fl_le a b \<Longrightarrow> fl_lt b c \<Longrightarrow> fl_lt a c"
  by (cases a; cases b; cases c) (simp_all add: fl_le_def)

lemma fl_lt_le_trans: "fl_lt a b \<Longrightarrow> fl_le b c \<Longrightarrow> fl_lt a c"
  by (cases a; cases b; cases c) (simp_all add: fl_le_def)

lemma argmin_None_iff: "argmin xs = None \<longleftrightarrow> xs = []"
  by (cases xs) (auto split: option.splits)

lemma argmin_bound: "argmin xs = Some i \<Longrightarrow> i < length xs"
  by (induction xs arbitrary: i) (auto split: option.splits if_splits)

lemma argmin_least:
  "NaN \<notin> set xs \<Longrightarrow> argmin xs = Some i \<Longrightarrow> j < length xs \<Longrightarrow> fl_le (xs ! i) (xs ! j)"
proof (induction xs arbitrary: i j)
  case Nil
  then show ?case by simp
next
  case (Cons x xs)
  from Cons.prems(1) have x: "x \<noteq> NaN" and rest: "NaN \<notin> set xs"
    by auto
  show ?case
  proof (cases "argmin xs")
    case None
    then have "xs = []"
      by (simp add: argmin_None_iff)
    with Cons.prems x show ?thesis
      by (simp add: fl_le_refl)
  next
    case (Some m)
    note IH = Cons.IH [OF rest Some]
    have mlen: "m < length xs"
      using Some by (rule argmin_bound)
    then have mval: "xs ! m \<noteq> NaN"
      using rest by (metis nth_mem)
    show ?thesis
    proof (cases "fl_le x (xs ! m)")
      case True
      with Some Cons.prems(2) have i0: "i = 0" by simp
      show ?thesis
      proof (cases j)
        case 0
        with i0 x show ?thesis by (simp add: fl_le_refl)
      next
        case (Suc k)
        with Cons.prems(3) have "fl_le (xs ! m) (xs ! k)"
          by (intro IH) simp
        with True have "fl_le x (xs ! k)"
          by (blast intro: fl_le_trans)
        with i0 Suc show ?thesis by simp
      qed
    next
      case False
      with Some Cons.prems(2) have im: "i = Suc m" by simp
      show ?thesis
      proof (cases j)
        case 0
        from False x mval have "fl_lt (xs ! m) x"
          using fl_total by blast
        then have "fl_le (xs ! m) x"
          by (simp add: fl_le_iff x mval)
        with im 0 show ?thesis by simp
      next
        case (Suc k)
        with Cons.prems(3) have "fl_le (xs ! m) (xs ! k)"
          by (intro IH) simp
        with im Suc show ?thesis by simp
      qed
    qed
  qed
qed

lemma argmin_first:
  "NaN \<notin> set xs \<Longrightarrow> argmin xs = Some i \<Longrightarrow> j < i \<Longrightarrow> fl_lt (xs ! i) (xs ! j)"
proof (induction xs arbitrary: i j)
  case Nil
  then show ?case by simp
next
  case (Cons x xs)
  from Cons.prems(1) have x: "x \<noteq> NaN" and rest: "NaN \<notin> set xs"
    by auto
  from Cons.prems(3) obtain i' where i': "i = Suc i'"
    by (cases i) simp_all
  with Cons.prems(2) obtain m where m: "argmin xs = Some m"
    by (auto split: option.splits if_splits)
  with Cons.prems(2) i' have im: "i' = m" and nle: "\<not> fl_le x (xs ! m)"
    by (auto split: if_splits)
  have "m < length xs"
    using m by (rule argmin_bound)
  then have mval: "xs ! m \<noteq> NaN"
    using rest by (metis nth_mem)
  show ?case
  proof (cases j)
    case 0
    from nle x mval have "fl_lt (xs ! m) x"
      using fl_total by blast
    with 0 i' im show ?thesis by simp
  next
    case (Suc k)
    with Cons.prems(3) i' im have "fl_lt (xs ! m) (xs ! k)"
      by (intro Cons.IH [OF rest m]) simp
    with Suc i' im show ?thesis by simp
  qed
qed

lemma fillna_inf_simps [simp]:
  "fillna_inf NaN = PInf" "fillna_inf PInf = PInf" "fillna_inf NInf = NInf"
  "fillna_inf (Fin y) = Fin y"
  by (simp_all add: fillna_inf_def)

lemma fillna_inf_not_NaN [simp]: "fillna_inf x \<noteq> NaN"
  by (simp add: fillna_inf_def)

lemma fillna_inf_id: "x \<noteq> NaN \<Longrightarrow> fillna_inf x = x"
  by (simp add: fillna_inf_def)

lemma fl_lt_fillna_inf: "fl_lt (fillna_inf x) y = fl_lt x y"
  by (cases x; cases y) simp_all

lemma fl_le_PInf_D: "fl_le PInf x \<Longrightarrow> x = PInf"
  by (cases x) (simp_all add: fl_le_def)

lemma has_value_iff: "has_value xs \<longleftrightarrow> \<not> list_all (\<lambda>x. x = NaN) xs"
  by (auto simp: has_value_def list_all_iff)

lemma idxmin_Inr_D:
  assumes "idxmin xs = Inr i"
  shows "argmin (map fillna_inf xs) = Some i" and "has_value xs" and "i < length xs"
proof -
  from assms show a: "argmin (map fillna_inf xs) = Some i" and "has_value xs"
    by (auto simp: idxmin_def has_value_iff split: option.splits if_splits)
  from argmin_bound [OF a] show "i < length xs" by simp
qed

lemma idxmin_Inr_iff: "(\<exists>i. idxmin xs = Inr i) \<longleftrightarrow> has_value xs"
proof
  assume "\<exists>i. idxmin xs = Inr i"
  then show "has_value xs"
    by (auto dest: idxmin_Inr_D(2))
next
  assume h: "has_value xs"
  then have "xs \<noteq> []"
    by (auto simp: has_value_def)
  then obtain i where "argmin (map fillna_inf xs) = Some i"
    using argmin_None_iff [of "map fillna_inf xs"] by auto
  with h show "\<exists>i. idxmin xs = Inr i"
    by (simp add: idxmin_def has_value_iff)
qed

lemma idxmin_empty: "idxmin [] = Inl ValueError_argmin_empty"
  by (simp add: idxmin_def)

text \<open>The row of \<open>idxmin\<close> is least, and first among the least, in the filled column.\<close>

lemma idxmin_filled:
  assumes "idxmin xs = Inr i"
  shows "j < length xs \<Longrightarrow> fl_le (fillna_inf (xs ! i)) (fillna_inf (xs ! j))"
    and "j < i \<Longrightarrow> fl_lt (fillna_inf (xs ! i)) (fillna_inf (xs ! j))"
proof -
  note a = idxmin_Inr_D(1) [OF assms] and len = idxmin_Inr_D(3) [OF assms]
  have nn: "NaN \<notin> set (map fillna_inf xs)"
    by (auto simp: fillna_inf_def)
  show "fl_le (fillna_inf (xs ! i)) (fillna_inf (xs ! j))" if "j < length xs"
    using argmin_least [OF nn a, of j] that len by simp
  show "fl_lt (fillna_inf (xs ! i)) (fillna_inf (xs ! j))" if "j < i"
    using argmin_first [OF nn a that] that len by simp
qed

lemma window_min_unique: "is_window_min a xs \<Longrightarrow> is_window_min b xs \<Longrightarrow> a = b"
  by (metis fl_le_def fl_le_iff is_window_min_def)

lemma series_min_all_NaN: "\<forall>x \<in> set xs. x = NaN \<Longrightarrow> series_min xs = NaN"
  by (induction xs) (simp_all add: Let_def)

lemma series_min_window_min: "has_value xs \<Longrightarrow> is_window_min (series_min xs) xs"
proof (induction xs)
  case Nil
  then show ?case by (simp add: has_value_def)
next
  case (Cons x xs)
  show ?case
  proof (cases "has_value xs")
    case False
    then have allnan: "\<forall>y \<in> set xs. y = NaN"
      by (auto simp: has_value_def)
    with Cons.prems have x: "x \<noteq> NaN"
      by (auto simp: has_value_def)
    from allnan have "series_min xs = NaN"
      by (rule series_min_all_NaN)
    with x allnan show ?thesis
      by (auto simp: is_window_min_def Let_def fl_le_refl)
  next
    case True
    then have m: "is_window_min (series_min xs) xs"
      by (rule Cons.IH)
    then have mn: "series_min xs \<noteq> NaN" and mem: "series_min xs \<in> set xs"
      and le: "\<And>y. y \<in> set xs \<Longrightarrow> y \<noteq> NaN \<Longrightarrow> fl_le (series_min xs) y"
      by (auto simp: is_window_min_def)
    show ?thesis
    proof (cases "x = NaN")
      case True
      with mn mem le show ?thesis
        by (auto simp: is_window_min_def Let_def)
    next
      case x: False
      show ?thesis
      proof (cases "fl_lt (series_min xs) x")
        case True
        then have "fl_le (series_min xs) x"
          by (simp add: fl_le_iff x mn)
        with True x mn mem le show ?thesis
          by (auto simp: is_window_min_def Let_def)
      next
        case False
        with x mn have xm: "fl_le x (series_min xs)"
          by (simp add: fl_le_def)
        have "fl_le x y" if "y \<in> set xs" "y \<noteq> NaN" for y
          using xm le [OF that] by (rule fl_le_trans)
        with False x mn show ?thesis
          by (auto simp: is_window_min_def Let_def fl_le_refl)
      qed
    qed
  qed
qed

lemma series_min_idxmin:
  assumes "idxmin xs = Inr i"
  shows "series_min xs = fillna_inf (xs ! i)"
proof -
  note h = idxmin_Inr_D(2) [OF assms] and len = idxmin_Inr_D(3) [OF assms]
  have least: "fl_le (fillna_inf (xs ! i)) y" if "y \<in> set xs" "y \<noteq> NaN" for y
  proof -
    from that(1) obtain j where "j < length xs" "xs ! j = y"
      by (auto simp: in_set_conv_nth)
    with idxmin_filled(1) [OF assms, of j] that(2) show ?thesis
      by (simp add: fillna_inf_id)
  qed
  have "fillna_inf (xs ! i) \<in> set xs"
  proof (cases "xs ! i = NaN")
    case True
    from h obtain y where y: "y \<in> set xs" "y \<noteq> NaN"
      by (auto simp: has_value_def)
    with least [OF y] True have "y = PInf"
      by (simp add: fl_le_PInf_D)
    with y True show ?thesis by simp
  next
    case False
    with len show ?thesis by (simp add: fillna_inf_id)
  qed
  with least have "is_window_min (fillna_inf (xs ! i)) xs"
    by (simp add: is_window_min_def)
  with series_min_window_min [OF h] show ?thesis
    by (rule window_min_unique)
qed

text \<open>
  Where plus infinity does not occur in the column, the row of \<open>idxmin\<close> holds the minimum
  and is the first that does.
\<close>

lemma idxmin_window_min:
  assumes "idxmin xs = Inr i" and "PInf \<notin> set xs"
  shows "is_window_min (xs ! i) xs" and "\<And>j. j < i \<Longrightarrow> xs ! j \<noteq> xs ! i"
proof -
  note len = idxmin_Inr_D(3) [OF assms(1)]
  have m: "is_window_min (series_min xs) xs"
    using idxmin_Inr_D(2) [OF assms(1)] by (rule series_min_window_min)
  then have "series_min xs \<noteq> PInf"
    using assms(2) by (auto simp: is_window_min_def)
  then have nn: "xs ! i \<noteq> NaN"
    using series_min_idxmin [OF assms(1)] by (auto simp: fillna_inf_def split: if_splits)
  then have eq: "series_min xs = xs ! i"
    using series_min_idxmin [OF assms(1)] by (simp add: fillna_inf_id)
  with m show "is_window_min (xs ! i) xs" by simp
  fix j assume j: "j < i"
  show "xs ! j \<noteq> xs ! i"
  proof
    assume "xs ! j = xs ! i"
    with idxmin_filled(2) [OF assms(1) j] show False
      by (simp add: fl_lt_irrefl)
  qed
qed

text \<open>The corner in which the row of \<open>idxmin\<close> does not hold the minimum.\<close>

lemma idxmin_NaN_before_PInf:
  "idxmin [NaN, PInf] = Inr 0" and "series_min [NaN, PInf] = PInf"
  by (simp_all add: idxmin_def fl_le_def)

lemma cycle_body_unfold:
  "cycle_body btc c =
     (case idxmin (map pct (accum btc c)) of
        Inl e \<Rightarrow> Inl e
      | Inr low_idx \<Rightarrow>
          if post_top btc c \<noteq> []
          then (case idxmin (map pct (post_top btc c)) of
                  Inl e \<Rightarrow> Inl e
                | Inr bear_idx \<Rightarrow>
                    Inr \<lparr>low_pct = pct (accum btc c ! low_idx),
                          low_day = days (accum btc c ! low_idx),
                          low_price = btc_price (accum btc c ! low_idx),
                          bear_low_pct = Some (series_min (map pct (post_top btc c))),
                          bear_low_day = Some (days (post_top btc c ! bear_idx)),
                          bear_low_price = Some (btc_price (post_top btc c ! bear_idx)),
                          held = Some (fl_gt (series_min (map pct (post_top btc c)))
                                         (pct (accum btc c ! low_idx)))\<rparr>)
          else Inr \<lparr>low_pct = pct (accum btc c ! low_idx),
                    low_day = days (accum btc c ! low_idx),
                    low_price = btc_price (accum btc c ! low_idx),
                    bear_low_pct = None, bear_low_day = None,
                    bear_low_price = None, held = None\<rparr>)"
  by (simp add: cycle_body_def Let_def accum_def post_top_def top_day_def split: sum.split)

lemma phase_body_unfold:
  "phase_body df b =
     (if length (stock_slice df b) < 10 then Inr None
      else case idxmin (map pct_s (first200 df b)) of
        Inl e \<Rightarrow> Inl e
      | Inr low_idx \<Rightarrow>
          if after200 df b \<noteq> []
          then (case idxmin (map pct_s (after200 df b)) of
                  Inl e \<Rightarrow> Inl e
                | Inr k \<Rightarrow>
                    Inr (Some \<lparr>low_pct_s = pct_s (first200 df b ! low_idx),
                          low_td = td (first200 df b ! low_idx),
                          low_price_s = price (first200 df b ! low_idx),
                          after_low = Some (series_min (map pct_s (after200 df b))),
                          after_low_td = Some (td (after200 df b ! k)),
                          after_low_px = Some (price (after200 df b ! k)),
                          held_s = Some (fl_gt (series_min (map pct_s (after200 df b)))
                                         (pct_s (first200 df b ! low_idx)))\<rparr>))
          else Inr (Some \<lparr>low_pct_s = pct_s (first200 df b ! low_idx),
                    low_td = td (first200 df b ! low_idx),
                    low_price_s = price (first200 df b ! low_idx),
                    after_low = None, after_low_td = None,
                    after_low_px = None, held_s = None\<rparr>))"
  by (simp add: phase_body_def phase_lows_def Let_def first200_def after200_def split: sum.split)

section \<open>What the two loop bodies return\<close>

lemma cycle_body_low:
  assumes "cycle_body btc c = Inr r"
  obtains i where "idxmin (map pct (accum btc c)) = Inr i"
    and "i < length (accum btc c)"
    and "low_pct r = pct (accum btc c ! i)"
    and "low_day r = days (accum btc c ! i)"
    and "low_price r = btc_price (accum btc c ! i)"
proof -
  from assms obtain i where i: "idxmin (map pct (accum btc c)) = Inr i"
    by (cases "idxmin (map pct (accum btc c))") (simp_all add: cycle_body_unfold)
  have len: "i < length (accum btc c)"
    using idxmin_Inr_D(3) [OF i] by simp
  from assms i have "low_pct r = pct (accum btc c ! i)
      \<and> low_day r = days (accum btc c ! i)
      \<and> low_price r = btc_price (accum btc c ! i)"
    by (auto simp: cycle_body_unfold split: if_splits sum.splits)
  with i len that show thesis by blast
qed

lemma cycle_body_late:
  assumes "cycle_body btc c = Inr r" and "post_top btc c \<noteq> []"
  obtains k where "idxmin (map pct (post_top btc c)) = Inr k"
    and "k < length (post_top btc c)"
    and "bear_low_pct r = Some (series_min (map pct (post_top btc c)))"
    and "bear_low_day r = Some (days (post_top btc c ! k))"
    and "bear_low_price r = Some (btc_price (post_top btc c ! k))"
    and "held r = Some (fl_gt (series_min (map pct (post_top btc c))) (low_pct r))"
proof -
  from assms obtain k where k: "idxmin (map pct (post_top btc c)) = Inr k"
    by (cases "idxmin (map pct (post_top btc c))")
       (auto simp: cycle_body_unfold split: sum.splits)
  have len: "k < length (post_top btc c)"
    using idxmin_Inr_D(3) [OF k] by simp
  from assms k have "bear_low_pct r = Some (series_min (map pct (post_top btc c)))
      \<and> bear_low_day r = Some (days (post_top btc c ! k))
      \<and> bear_low_price r = Some (btc_price (post_top btc c ! k))
      \<and> held r = Some (fl_gt (series_min (map pct (post_top btc c))) (low_pct r))"
    by (auto simp: cycle_body_unfold split: sum.splits)
  with k len that show thesis by blast
qed

lemma cycle_body_no_late:
  assumes "cycle_body btc c = Inr r" and "post_top btc c = []"
  shows "bear_low_pct r = None" and "bear_low_day r = None"
    and "bear_low_price r = None" and "held r = None"
  using assms by (auto simp: cycle_body_unfold split: sum.splits)

lemma cycle_body_returns_iff:
  "(\<exists>r. cycle_body btc c = Inr r) \<longleftrightarrow>
     has_value (map pct (accum btc c))
     \<and> (post_top btc c = [] \<or> has_value (map pct (post_top btc c)))"
proof -
  have a: "has_value (map pct (accum btc c)) \<longleftrightarrow> (\<exists>i. idxmin (map pct (accum btc c)) = Inr i)"
    by (simp add: idxmin_Inr_iff)
  have p: "has_value (map pct (post_top btc c)) \<longleftrightarrow> (\<exists>i. idxmin (map pct (post_top btc c)) = Inr i)"
    by (simp add: idxmin_Inr_iff)
  show ?thesis
    unfolding a p
    by (cases "idxmin (map pct (accum btc c))"; cases "idxmin (map pct (post_top btc c))")
       (auto simp: cycle_body_unfold)
qed

lemma phase_body_low:
  assumes "phase_body df b = Inr (Some s)"
  obtains i where "idxmin (map pct_s (first200 df b)) = Inr i"
    and "i < length (first200 df b)"
    and "low_pct_s s = pct_s (first200 df b ! i)"
    and "low_td s = td (first200 df b ! i)"
    and "low_price_s s = price (first200 df b ! i)"
    and "10 \<le> length (stock_slice df b)"
proof -
  from assms have ten: "10 \<le> length (stock_slice df b)"
    by (auto simp: phase_body_unfold split: if_splits)
  with assms obtain i where i: "idxmin (map pct_s (first200 df b)) = Inr i"
    by (cases "idxmin (map pct_s (first200 df b))") (simp_all add: phase_body_unfold)
  have len: "i < length (first200 df b)"
    using idxmin_Inr_D(3) [OF i] by simp
  from assms i ten have "low_pct_s s = pct_s (first200 df b ! i)
      \<and> low_td s = td (first200 df b ! i)
      \<and> low_price_s s = price (first200 df b ! i)"
    by (auto simp: phase_body_unfold split: if_splits sum.splits)
  with i len ten that show thesis by blast
qed

lemma phase_body_late:
  assumes "phase_body df b = Inr (Some s)" and "after200 df b \<noteq> []"
  obtains k where "idxmin (map pct_s (after200 df b)) = Inr k"
    and "k < length (after200 df b)"
    and "after_low s = Some (series_min (map pct_s (after200 df b)))"
    and "after_low_td s = Some (td (after200 df b ! k))"
    and "after_low_px s = Some (price (after200 df b ! k))"
    and "held_s s = Some (fl_gt (series_min (map pct_s (after200 df b))) (low_pct_s s))"
proof -
  from assms obtain k where k: "idxmin (map pct_s (after200 df b)) = Inr k"
    by (cases "idxmin (map pct_s (after200 df b))")
       (auto simp: phase_body_unfold split: sum.splits if_splits)
  have len: "k < length (after200 df b)"
    using idxmin_Inr_D(3) [OF k] by simp
  from assms k have "after_low s = Some (series_min (map pct_s (after200 df b)))
      \<and> after_low_td s = Some (td (after200 df b ! k))
      \<and> after_low_px s = Some (price (after200 df b ! k))
      \<and> held_s s = Some (fl_gt (series_min (map pct_s (after200 df b))) (low_pct_s s))"
    by (auto simp: phase_body_unfold split: sum.splits if_splits)
  with k len that show thesis by blast
qed

lemma phase_body_no_late:
  assumes "phase_body df b = Inr (Some s)" and "after200 df b = []"
  shows "after_low s = None" and "after_low_td s = None"
    and "after_low_px s = None" and "held_s s = None"
  using assms by (auto simp: phase_body_unfold split: sum.splits if_splits)

lemma phase_body_returns_iff:
  "(\<exists>s. phase_body df b = Inr (Some s)) \<longleftrightarrow>
     10 \<le> length (stock_slice df b)
     \<and> has_value (map pct_s (first200 df b))
     \<and> (after200 df b = [] \<or> has_value (map pct_s (after200 df b)))"
proof -
  have a: "has_value (map pct_s (first200 df b)) \<longleftrightarrow> (\<exists>i. idxmin (map pct_s (first200 df b)) = Inr i)"
    by (simp add: idxmin_Inr_iff)
  have p: "has_value (map pct_s (after200 df b)) \<longleftrightarrow> (\<exists>i. idxmin (map pct_s (after200 df b)) = Inr i)"
    by (simp add: idxmin_Inr_iff)
  show ?thesis
    unfolding a p
    by (cases "idxmin (map pct_s (first200 df b))"; cases "idxmin (map pct_s (after200 df b))")
       (auto simp: phase_body_unfold)
qed

lemma phase_body_skip_iff:
  "phase_body df b = Inr None \<longleftrightarrow> length (stock_slice df b) < 10"
  by (auto simp: phase_body_unfold split: sum.splits if_splits)

section \<open>The windows are ordered by offset\<close>

lemma btc_chunk_sorted:
  assumes "sorted (map date btc)"
  shows "sorted (map days (btc_chunk btc c))"
proof -
  from assms have "sorted_wrt (\<lambda>a b. date a \<le> date b) btc"
    by (simp add: sorted_map)
  then have "sorted_wrt (\<lambda>a b. date a \<le> date b)
      (filter (\<lambda>r. halving c \<le> date r \<and> date r \<le> cycle_end c) btc)"
    by (rule sorted_wrt_filter)
  then show ?thesis
    by (simp add: btc_chunk_def sorted_map sorted_wrt_map)
qed

lemma accum_sorted: "sorted (map date btc) \<Longrightarrow> sorted (map days (accum btc c))"
  unfolding accum_def by (intro sorted_filter btc_chunk_sorted)

lemma accum_window: "x \<in> set (accum btc c) \<Longrightarrow> 0 \<le> days x \<and> days x \<le> 200"
  by (auto simp: accum_def btc_chunk_def)

lemma stock_chunk_td: "map td (stock_chunk sl) = [0..<length sl]"
proof -
  have "map td (stock_chunk sl) = map fst (enumerate 0 sl)"
    by (simp add: stock_chunk_def Let_def case_prod_unfold comp_def)
  then show ?thesis by simp
qed

lemma stock_chunk_length: "length (stock_chunk sl) = length sl"
  using arg_cong [OF stock_chunk_td, of length sl] by simp

lemma first200_sorted: "sorted (map td (first200 df b))"
  unfolding first200_def by (intro sorted_filter) (simp add: stock_chunk_td)

lemma first200_window: "x \<in> set (first200 df b) \<Longrightarrow> td x \<le> 200"
  by (simp add: first200_def)

lemma first200_nonempty:
  assumes "10 \<le> length (stock_slice df b)"
  shows "first200 df b \<noteq> []"
proof -
  let ?ch = "stock_chunk (stock_slice df b)"
  from assms have len: "0 < length ?ch"
    by (auto simp: stock_chunk_length)
  from assms have "0 < length (stock_slice df b)" by linarith
  then have "map td ?ch ! 0 = 0"
    unfolding stock_chunk_td by simp
  with len have "td (?ch ! 0) \<le> 200" by simp
  moreover from len have "?ch ! 0 \<in> set ?ch" by simp
  ultimately have "?ch ! 0 \<in> set (first200 df b)"
    by (simp add: first200_def)
  then show ?thesis by auto
qed

lemma first_min_smallest_offset:
  fixes off :: "'a \<Rightarrow> 'b::linorder"
  assumes srt: "sorted (map off rows)"
    and i: "idxmin (map p rows) = Inr i" and fin: "PInf \<notin> set (map p rows)"
    and x: "x \<in> set rows" and eq: "p x = p (rows ! i)"
  shows "off (rows ! i) \<le> off x"
proof -
  from x obtain j where j: "j < length rows" and xj: "rows ! j = x"
    by (auto simp: in_set_conv_nth)
  have ilen: "i < length rows"
    using idxmin_Inr_D(3) [OF i] by simp
  have "i \<le> j"
  proof (rule ccontr)
    assume "\<not> i \<le> j"
    then have "j < i" by simp
    from idxmin_window_min(2) [OF i fin this] j ilen xj eq show False by simp
  qed
  with srt j have "map off rows ! i \<le> map off rows ! j"
    by (intro sorted_nth_mono) simp_all
  with j ilen xj show ?thesis by simp
qed

section \<open>The normalisation\<close>

lemma pct_from_finite:
  "pct_from (Fin ref) (Fin v) =
     (if ref \<noteq> 0 then Fin ((v - ref) / ref * 100)
      else if 0 < v then PInf else if v < 0 then NInf else NaN)"
  by (simp add: pct_from_def)

lemma pct_from_round_trip:
  assumes "ref \<noteq> 0"
  shows "\<exists>p. pct_from (Fin ref) (Fin v) = Fin p \<and> spec_percent_to_value ref p = v
            \<and> (v = ref \<longrightarrow> p = 0)"
proof -
  have "ref * (1 + (v - ref) / ref * 100 / 100) = v"
    using assms by (simp add: field_simps)
  with assms show ?thesis
    by (simp add: pct_from_finite spec_percent_to_value_def)
qed

lemma btc_chunk_pct:
  "x \<in> set (btc_chunk btc c) \<Longrightarrow> pct x = pct_from (Fin (top_price c)) (btc_price x)"
  by (auto simp: btc_chunk_def)

lemma stock_chunk_pct:
  "x \<in> set (stock_chunk sl) \<Longrightarrow> pct_s x = pct_from (price (sl ! 0)) (price x)"
  by (auto simp: stock_chunk_def Let_def)

section \<open>Zones and long-term-holder supply\<close>

lemma fl_gt_zero_iff: "fl_gt x (Fin 0) \<longleftrightarrow> strictly_positive x"
  by (cases x) (simp_all add: fl_gt_def strictly_positive_def)

lemma load_lth_eq:
  "load_lth to_datetime to_numeric raw =
     map (\<lambda>j. \<lparr>lth_date = to_datetime (d j),
                lth_supply = to_numeric (longTermHodlerSupplyBtc j)\<rparr>)
       (filter (\<lambda>j. fl_gt (to_numeric (longTermHodlerSupplyBtc j)) (Fin 0)) raw)"
  by (simp add: load_lth_def filter_map comp_def)

lemma set_dropna:
  "set (dropna rows) =
     {\<lparr>date_oc = t, value_oc = v\<rparr> | t v. (Some t, v) \<in> set rows \<and> v \<noteq> NaN}"
  by (induction rows) (auto simp: dropna_def split: option.splits if_splits)

lemma set_load_lth_onchain:
  "set (load_lth_onchain to_datetime to_numeric raw) =
     {\<lparr>date_oc = t, value_oc = to_numeric (longTermHodlerSupplyBtc j)\<rparr> | t j.
        j \<in> set raw \<and> to_datetime (d j) = Some t
        \<and> fl_gt (to_numeric (longTermHodlerSupplyBtc j)) (Fin 0)}"
proof -
  have nn: "\<not> fl_gt NaN (Fin 0)"
    by (simp add: fl_gt_def)
  show ?thesis
    unfolding load_lth_onchain_def Let_def
    by (auto simp: set_dropna nn) force
qed

lemma pct_from_not_PInf:
  "ref \<noteq> 0 \<Longrightarrow> v \<noteq> PInf \<Longrightarrow> v \<noteq> NInf \<Longrightarrow> pct_from (Fin ref) v \<noteq> PInf"
  by (cases v) (simp_all add: pct_from_def)

lemma accum_no_PInf:
  assumes "top_price c \<noteq> 0"
    and "\<forall>x \<in> set btc. btc_price x \<noteq> PInf \<and> btc_price x \<noteq> NInf"
  shows "PInf \<notin> set (map pct (accum btc c))"
proof
  assume "PInf \<in> set (map pct (accum btc c))"
  then obtain x where x: "x \<in> set (btc_chunk btc c)" and p: "pct x = PInf"
    by (auto simp: accum_def)
  from x obtain y where "y \<in> set btc" and "btc_price x = btc_price y"
    by (auto simp: btc_chunk_def)
  with assms have "pct_from (Fin (top_price c)) (btc_price x) \<noteq> PInf"
    by (simp add: pct_from_not_PInf)
  with x p show False
    by (simp add: btc_chunk_pct)
qed

lemma first200_no_PInf:
  assumes "price (stock_slice df b ! 0) = Fin bottom_price" and "bottom_price \<noteq> 0"
    and "\<forall>x \<in> set df. price x \<noteq> PInf \<and> price x \<noteq> NInf"
  shows "PInf \<notin> set (map pct_s (first200 df b))"
proof
  assume "PInf \<in> set (map pct_s (first200 df b))"
  then obtain x where x: "x \<in> set (stock_chunk (stock_slice df b))" and p: "pct_s x = PInf"
    by (auto simp: first200_def)
  from x obtain a where "a < length (stock_slice df b)"
    and "price x = price (stock_slice df b ! a)"
    by (auto simp: stock_chunk_def Let_def in_set_enumerate_eq)
  then obtain y where "y \<in> set (stock_slice df b)" and "price x = price y"
    using nth_mem by blast
  with assms(3) have "price x \<noteq> PInf \<and> price x \<noteq> NInf"
    by (auto simp: stock_slice_def)
  with assms(1,2) have "pct_from (price (stock_slice df b ! 0)) (price x) \<noteq> PInf"
    by (simp add: pct_from_not_PInf)
  with x p show False
    by (simp add: stock_chunk_pct)
qed

text \<open>
  The verdict of a loop body that has returned, with a late window that is not empty: the
  strict comparison of the two window minima.
\<close>

lemma verdict_of_returned_body:
  "(cycle_body btc c = Inr r \<and> post_top btc c \<noteq> [] \<longrightarrow>
      (\<exists>late early. bear_low_pct r = Some late
         \<and> is_window_min late (map pct (post_top btc c))
         \<and> is_window_min early (map pct (accum btc c))
         \<and> held r = Some (fl_gt late (low_pct r))
         \<and> held r = Some (fl_gt late early)
         \<and> (late = early \<longrightarrow> held r = Some False)
         \<and> (PInf \<notin> set (map pct (accum btc c)) \<longrightarrow> low_pct r = early)))
   \<and> (phase_body df b = Inr (Some s) \<and> after200 df b \<noteq> [] \<longrightarrow>
      (\<exists>late early. after_low s = Some late
         \<and> is_window_min late (map pct_s (after200 df b))
         \<and> is_window_min early (map pct_s (first200 df b))
         \<and> held_s s = Some (fl_gt late (low_pct_s s))
         \<and> held_s s = Some (fl_gt late early)
         \<and> (late = early \<longrightarrow> held_s s = Some False)
         \<and> (PInf \<notin> set (map pct_s (first200 df b)) \<longrightarrow> low_pct_s s = early)))"
proof (intro conjI impI; elim conjE)
  let ?late = "series_min (map pct (post_top btc c))"
  let ?early = "series_min (map pct (accum btc c))"
  assume ret: "cycle_body btc c = Inr r" and ne: "post_top btc c \<noteq> []"
  from ret obtain i where i: "idxmin (map pct (accum btc c)) = Inr i"
    and ilen: "i < length (accum btc c)" and lo: "low_pct r = pct (accum btc c ! i)"
    by (rule cycle_body_low)
  from ret ne obtain k where k: "idxmin (map pct (post_top btc c)) = Inr k"
    and late: "bear_low_pct r = Some ?late"
    and verdict: "held r = Some (fl_gt ?late (low_pct r))"
    by (rule cycle_body_late)
  have m1: "is_window_min ?late (map pct (post_top btc c))"
    using idxmin_Inr_D(2) [OF k] by (rule series_min_window_min)
  have m2: "is_window_min ?early (map pct (accum btc c))"
    using idxmin_Inr_D(2) [OF i] by (rule series_min_window_min)
  have fill: "?early = fillna_inf (low_pct r)"
    using series_min_idxmin [OF i] ilen lo by simp
  then have cmp: "fl_gt ?late (low_pct r) = fl_gt ?late ?early"
    by (simp add: fl_gt_def fl_lt_fillna_inf)
  have eq: "low_pct r = ?early" if "PInf \<notin> set (map pct (accum btc c))"
    using idxmin_window_min(1) [OF i that] m2 ilen lo by (auto intro: window_min_unique)
  from late m1 m2 verdict cmp eq
  show "\<exists>late early. bear_low_pct r = Some late
         \<and> is_window_min late (map pct (post_top btc c))
         \<and> is_window_min early (map pct (accum btc c))
         \<and> held r = Some (fl_gt late (low_pct r))
         \<and> held r = Some (fl_gt late early)
         \<and> (late = early \<longrightarrow> held r = Some False)
         \<and> (PInf \<notin> set (map pct (accum btc c)) \<longrightarrow> low_pct r = early)"
    by (intro exI [of _ ?late] exI [of _ ?early]) (auto simp: fl_gt_def fl_lt_irrefl)
next
  let ?late = "series_min (map pct_s (after200 df b))"
  let ?early = "series_min (map pct_s (first200 df b))"
  assume ret: "phase_body df b = Inr (Some s)" and ne: "after200 df b \<noteq> []"
  from ret obtain i where i: "idxmin (map pct_s (first200 df b)) = Inr i"
    and ilen: "i < length (first200 df b)" and lo: "low_pct_s s = pct_s (first200 df b ! i)"
    by (rule phase_body_low)
  from ret ne obtain k where k: "idxmin (map pct_s (after200 df b)) = Inr k"
    and late: "after_low s = Some ?late"
    and verdict: "held_s s = Some (fl_gt ?late (low_pct_s s))"
    by (rule phase_body_late)
  have m1: "is_window_min ?late (map pct_s (after200 df b))"
    using idxmin_Inr_D(2) [OF k] by (rule series_min_window_min)
  have m2: "is_window_min ?early (map pct_s (first200 df b))"
    using idxmin_Inr_D(2) [OF i] by (rule series_min_window_min)
  have fill: "?early = fillna_inf (low_pct_s s)"
    using series_min_idxmin [OF i] ilen lo by simp
  then have cmp: "fl_gt ?late (low_pct_s s) = fl_gt ?late ?early"
    by (simp add: fl_gt_def fl_lt_fillna_inf)
  have eq: "low_pct_s s = ?early" if "PInf \<notin> set (map pct_s (first200 df b))"
    using idxmin_window_min(1) [OF i that] m2 ilen lo by (auto intro: window_min_unique)
  from late m1 m2 verdict cmp eq
  show "\<exists>late early. after_low s = Some late
         \<and> is_window_min late (map pct_s (after200 df b))
         \<and> is_window_min early (map pct_s (first200 df b))
         \<and> held_s s = Some (fl_gt late (low_pct_s s))
         \<and> held_s s = Some (fl_gt late early)
         \<and> (late = early \<longrightarrow> held_s s = Some False)
         \<and> (PInf \<notin> set (map pct_s (first200 df b)) \<longrightarrow> low_pct_s s = early)"
    by (intro exI [of _ ?late] exI [of _ ?early]) (auto simp: fl_gt_def fl_lt_irrefl)
qed

section \<open>Rounding errors of the normalisation\<close>

lemma round_half_even_error: "\<bar>of_int (round_half_even y) - y\<bar> \<le> 1 / 2"
proof -
  have "of_int \<lfloor>y\<rfloor> \<le> y" and "y < of_int \<lfloor>y\<rfloor> + 1"
    by linarith+
  then show ?thesis
    by (auto simp: round_half_even_def Let_def)
qed

lemma round_half_even_of_int [simp]: "round_half_even (of_int n) = n"
  by (simp add: round_half_even_def)

lemma f64_zero [simp]: "f64 0 = 0"
  by (simp add: f64_def)

text \<open>The value of \<open>f64\<close> on a number whose binade is known.\<close>

lemma f64_binade:
  assumes "2 powr of_int E \<le> \<bar>x\<bar>" and "\<bar>x\<bar> < 2 powr of_int (E + 1)"
  shows "f64 x = of_int (round_half_even (x / 2 powr of_int (E - 52))) * 2 powr of_int (E - 52)"
proof -
  have "(0::real) < 2 powr of_int E"
    by simp
  with assms(1) have pos: "0 < \<bar>x\<bar>"
    by linarith
  then have "\<lfloor>log 2 \<bar>x\<bar>\<rfloor> = E"
    using assms by (simp add: floor_log_eq_powr_iff)
  with pos show ?thesis
    by (simp add: f64_def Let_def)
qed

lemma f64_error: "\<bar>f64 x - x\<bar> \<le> \<bar>x\<bar> / 2 ^ 53"
proof (cases "x = 0")
  case True
  then show ?thesis by simp
next
  case False
  define E where "E = \<lfloor>log 2 \<bar>x\<bar>\<rfloor>"
  define ulp :: real where "ulp = 2 powr of_int (E - 52)"
  have ulp_pos: "0 < ulp"
    by (simp add: ulp_def)
  have "of_int E \<le> log 2 \<bar>x\<bar>"
    unfolding E_def by linarith
  then have "2 powr of_int E \<le> 2 powr log 2 \<bar>x\<bar>"
    by simp
  with False have lower: "2 powr of_int E \<le> \<bar>x\<bar>"
    by simp
  have "ulp = 2 powr of_int E / 2 ^ 52"
    by (simp add: ulp_def powr_diff)
  with lower have ulp_le: "ulp \<le> \<bar>x\<bar> / 2 ^ 52"
    by (simp add: divide_right_mono)
  have val: "f64 x = of_int (round_half_even (x / ulp)) * ulp"
    using False by (simp add: f64_def Let_def ulp_def E_def)
  have "f64 x - x = (of_int (round_half_even (x / ulp)) - x / ulp) * ulp"
    using ulp_pos by (simp add: val algebra_simps)
  then have "\<bar>f64 x - x\<bar> = \<bar>of_int (round_half_even (x / ulp)) - x / ulp\<bar> * ulp"
    using ulp_pos by (simp add: abs_mult)
  also have "\<dots> \<le> (1 / 2) * ulp"
    using round_half_even_error [of "x / ulp"] ulp_pos by (intro mult_right_mono) simp_all
  also have "\<dots> \<le> (1 / 2) * (\<bar>x\<bar> / 2 ^ 52)"
    using ulp_le by simp
  also have "\<dots> = \<bar>x\<bar> / 2 ^ 53"
    by simp
  finally show ?thesis .
qed

lemma f64_relative:
  obtains e where "f64 x = x * (1 + e)" and "\<bar>e\<bar> \<le> 1 / 2 ^ 53"
proof (cases "x = 0")
  case True
  then have "f64 x = x * (1 + 0)" and "\<bar>0::real\<bar> \<le> 1 / 2 ^ 53"
    by simp_all
  then show thesis by (rule that)
next
  case False
  let ?e = "(f64 x - x) / x"
  have "f64 x = x * (1 + ?e)"
    using False by (simp add: field_simps)
  moreover have "\<bar>?e\<bar> \<le> 1 / 2 ^ 53"
  proof -
    have "\<bar>?e\<bar> = \<bar>f64 x - x\<bar> / \<bar>x\<bar>"
      by (simp add: abs_divide)
    also have "\<dots> \<le> (\<bar>x\<bar> / 2 ^ 53) / \<bar>x\<bar>"
      using f64_error [of x] by (intro divide_right_mono) simp_all
    also have "\<dots> = 1 / 2 ^ 53"
      using False by simp
    finally show ?thesis .
  qed
  ultimately show thesis by (rule that)
qed

lemma f64_minus_one: "f64 (- 1) = - 1"
proof -
  have "f64 (- 1) = of_int (round_half_even (- 1 / 2 powr of_int (0 - 52))) * 2 powr of_int (0 - 52)"
    by (rule f64_binade) simp_all
  then show ?thesis
    by (simp add: round_half_even_def powr_neg_numeral)
qed

lemma f64_minus_hundred: "f64 (- 100) = - 100"
proof -
  have "f64 (- 100) = of_int (round_half_even (- 100 / 2 powr of_int (6 - 52))) * 2 powr of_int (6 - 52)"
    by (rule f64_binade) simp_all
  then show ?thesis
    by (simp add: round_half_even_def powr_neg_numeral)
qed

lemma f64_absorbed: "f64 (1 / 2 ^ 57 - 1) = - 1"
proof -
  have "f64 (1 / 2 ^ 57 - 1) =
      of_int (round_half_even ((1 / 2 ^ 57 - 1) / 2 powr of_int (- 1 - 52))) * 2 powr of_int (- 1 - 52)"
    by (rule f64_binade) (simp_all add: powr_neg_numeral)
  then show ?thesis
    by (simp add: round_half_even_def powr_neg_numeral)
qed

lemma pct_from_f64_absorbed: "pct_from_f64 1 (1 / 2 ^ 57) = - 100"
  unfolding pct_from_f64_def f64_absorbed
  by (simp add: f64_minus_one f64_minus_hundred)

lemma value_from_pct_f64_minus_hundred: "value_from_pct_f64 1 (- 100) = 0"
  by (simp add: value_from_pct_f64_def f64_minus_one)

lemma pct_from_f64_reference: "ref \<noteq> 0 \<Longrightarrow> pct_from_f64 ref ref = 0"
  by (simp add: pct_from_f64_def)

lemma error_product:
  fixes a b :: real
  assumes "\<bar>a\<bar> \<le> A" and "\<bar>b\<bar> \<le> B"
  shows "\<bar>(1 + a) * (1 + b) - 1\<bar> \<le> A + B + A * B"
proof -
  have "0 \<le> A" and "0 \<le> B"
    using assms by linarith+
  have "(1 + a) * (1 + b) - 1 = a + b + a * b"
    by (simp add: algebra_simps)
  moreover have "\<bar>a + b + a * b\<bar> \<le> \<bar>a\<bar> + \<bar>b\<bar> + \<bar>a * b\<bar>"
    by linarith
  moreover have "\<bar>a * b\<bar> = \<bar>a\<bar> * \<bar>b\<bar>"
    by (rule abs_mult)
  moreover have "\<bar>a\<bar> * \<bar>b\<bar> \<le> A * B"
    using assms by (intro mult_mono) simp_all
  ultimately show ?thesis
    using assms by linarith
qed

lemma round_trip_f64:
  assumes ref: "ref \<noteq> 0" and near: "\<bar>v - ref\<bar> \<le> 10 ^ 6 * \<bar>v\<bar>"
  shows "\<bar>value_from_pct_f64 ref (pct_from_f64 ref v) - v\<bar> \<le> \<bar>v\<bar> / 10 ^ 9"
proof -
  define u :: real where "u = 1 / 2 ^ 53"
  define H :: real where "H = 5 * u"
  define T :: real where "T = 3 * u"
  define a where "a = f64 (v - ref)"
  define b where "b = f64 (a / ref)"
  define p where "p = f64 (b * 100)"
  define q where "q = f64 (p / 100)"
  define s where "s = f64 (1 + q)"
  define r where "r = f64 (ref * s)"
  have r: "value_from_pct_f64 ref (pct_from_f64 ref v) = r"
    by (simp add: value_from_pct_f64_def pct_from_f64_def r_def s_def q_def p_def b_def a_def)
  obtain d1 where d1: "a = (v - ref) * (1 + d1)" "\<bar>d1\<bar> \<le> u"
    unfolding u_def a_def by (rule f64_relative)
  obtain d2 where d2: "b = a / ref * (1 + d2)" "\<bar>d2\<bar> \<le> u"
    unfolding u_def b_def by (rule f64_relative)
  obtain d3 where d3: "p = b * 100 * (1 + d3)" "\<bar>d3\<bar> \<le> u"
    unfolding u_def p_def by (rule f64_relative)
  obtain d4 where d4: "q = p / 100 * (1 + d4)" "\<bar>d4\<bar> \<le> u"
    unfolding u_def q_def by (rule f64_relative)
  obtain d5 where d5: "s = (1 + q) * (1 + d5)" "\<bar>d5\<bar> \<le> u"
    unfolding u_def s_def by (rule f64_relative)
  obtain d6 where d6: "r = ref * s * (1 + d6)" "\<bar>d6\<bar> \<le> u"
    unfolding u_def r_def by (rule f64_relative)
  define eta where "eta = (1 + ((1 + d1) * (1 + d2) - 1)) * (1 + ((1 + d3) * (1 + d4) - 1)) - 1"
  define theta where "theta = (1 + d5) * (1 + d6) - 1"
  have e12: "\<bar>(1 + d1) * (1 + d2) - 1\<bar> \<le> u + u + u * u"
    using d1(2) d2(2) by (rule error_product)
  have e34: "\<bar>(1 + d3) * (1 + d4) - 1\<bar> \<le> u + u + u * u"
    using d3(2) d4(2) by (rule error_product)
  have "\<bar>eta\<bar> \<le> (u + u + u * u) + (u + u + u * u) + (u + u + u * u) * (u + u + u * u)"
    unfolding eta_def using e12 e34 by (rule error_product)
  also have "\<dots> \<le> H"
    by (simp add: u_def H_def)
  finally have eta: "\<bar>eta\<bar> \<le> H" .
  have "\<bar>theta\<bar> \<le> u + u + u * u"
    unfolding theta_def using d5(2) d6(2) by (rule error_product)
  also have "\<dots> \<le> T"
    by (simp add: u_def T_def)
  finally have theta: "\<bar>theta\<bar> \<le> T" .
  have q: "q = (v - ref) / ref * (1 + eta)"
    by (simp add: d4(1) d3(1) d2(1) d1(1) eta_def)
  have recon: "ref * (1 + q) = v + (v - ref) * eta"
    using ref by (simp add: q field_simps)
  have "r = ref * (1 + q) * (1 + theta)"
    by (simp add: d6(1) d5(1) theta_def)
  then have "r = (v + (v - ref) * eta) * (1 + theta)"
    unfolding recon .
  then have "r - v = v * theta + (v - ref) * eta * (1 + theta)"
    by (simp add: algebra_simps)
  moreover have "\<bar>v * theta + (v - ref) * eta * (1 + theta)\<bar>
      \<le> \<bar>v * theta\<bar> + \<bar>(v - ref) * eta * (1 + theta)\<bar>"
    by (rule abs_triangle_ineq)
  ultimately have "\<bar>r - v\<bar> \<le> \<bar>v\<bar> * \<bar>theta\<bar> + \<bar>v - ref\<bar> * \<bar>eta\<bar> * \<bar>1 + theta\<bar>"
    by (simp add: abs_mult)
  also have "\<dots> \<le> \<bar>v\<bar> * T + (10 ^ 6 * \<bar>v\<bar>) * H * (1 + T)"
  proof (intro add_mono mult_mono)
    show "\<bar>1 + theta\<bar> \<le> 1 + T"
      using theta by linarith
  qed (use near eta theta in \<open>simp_all add: H_def T_def u_def\<close>)
  also have "\<dots> = \<bar>v\<bar> * (T + 10 ^ 6 * H * (1 + T))"
    by (simp add: algebra_simps)
  also have "\<dots> \<le> \<bar>v\<bar> * (1 / 10 ^ 9)"
    by (intro mult_left_mono) (simp_all add: H_def T_def u_def)
  finally show ?thesis
    by (simp add: r)
qed

text \<open>
  Over exact arithmetic the conversion of the specification takes the percent of every
  finite value back to that value.
\<close>

lemma percent_round_trip_exact:
  "(0 < ref \<longrightarrow>
      (\<exists>p. pct_from (Fin ref) (Fin v) = Fin p \<and> spec_percent_to_value ref p = v)
      \<and> pct_from (Fin ref) (Fin ref) = Fin 0)
   \<and> (0 < top_price c \<longrightarrow>
        (\<forall>x \<in> set (btc_chunk btc c). \<forall>v. btc_price x = Fin v \<longrightarrow>
           (\<exists>p. pct x = Fin p \<and> spec_percent_to_value (top_price c) p = v
                \<and> (v = top_price c \<longrightarrow> p = 0))))
   \<and> (price (sl ! 0) = Fin bottom_price \<and> 0 < bottom_price \<longrightarrow>
        (\<forall>x \<in> set (stock_chunk sl). \<forall>v. price x = Fin v \<longrightarrow>
           (\<exists>p. pct_s x = Fin p \<and> spec_percent_to_value bottom_price p = v
                \<and> (v = bottom_price \<longrightarrow> p = 0))))"
proof (intro conjI impI ballI allI; (elim conjE)?)
  assume "0 < ref"
  then show "\<exists>p. pct_from (Fin ref) (Fin v) = Fin p \<and> spec_percent_to_value ref p = v"
    using pct_from_round_trip [of ref v] by auto
next
  assume "0 < ref"
  then show "pct_from (Fin ref) (Fin ref) = Fin 0"
    by (simp add: pct_from_finite)
next
  fix x v
  assume "0 < top_price c" and "x \<in> set (btc_chunk btc c)" and "btc_price x = Fin v"
  then show "\<exists>p. pct x = Fin p \<and> spec_percent_to_value (top_price c) p = v
                \<and> (v = top_price c \<longrightarrow> p = 0)"
    using pct_from_round_trip [of "top_price c" v] by (simp add: btc_chunk_pct)
next
  fix x v
  assume "price (sl ! 0) = Fin bottom_price" and "0 < bottom_price"
    and "x \<in> set (stock_chunk sl)" and "price x = Fin v"
  then show "\<exists>p. pct_s x = Fin p \<and> spec_percent_to_value bottom_price p = v
                \<and> (v = bottom_price \<longrightarrow> p = 0)"
    using pct_from_round_trip [of bottom_price v] by (simp add: stock_chunk_pct)
qed

section \<open>The claims\<close>

text \<open>
  C1.  With a late window that is not empty, the verdict of a loop body is the strict
  comparison of the minimum percent of the late window with the minimum percent of the
  early window: true exactly when the late minimum is greater, and false when the two
  are equal.  The body returns, with this verdict, as soon as both windows hold a number
  (and, in stocks\_accumulation.py, the slice has ten rows).
\<close>

theorem support_verdict_strict:
  "(cycle_body btc c = Inr r \<and> post_top btc c \<noteq> [] \<longrightarrow>
      (\<exists>late early. bear_low_pct r = Some late
         \<and> is_window_min late (map pct (post_top btc c))
         \<and> is_window_min early (map pct (accum btc c))
         \<and> held r = Some (fl_gt late (low_pct r))
         \<and> held r = Some (fl_gt late early)
         \<and> (late = early \<longrightarrow> held r = Some False)
         \<and> (PInf \<notin> set (map pct (accum btc c)) \<longrightarrow> low_pct r = early)))
   \<and> (phase_body df b = Inr (Some s) \<and> after200 df b \<noteq> [] \<longrightarrow>
      (\<exists>late early. after_low s = Some late
         \<and> is_window_min late (map pct_s (after200 df b))
         \<and> is_window_min early (map pct_s (first200 df b))
         \<and> held_s s = Some (fl_gt late (low_pct_s s))
         \<and> held_s s = Some (fl_gt late early)
         \<and> (late = early \<longrightarrow> held_s s = Some False)
         \<and> (PInf \<notin> set (map pct_s (first200 df b)) \<longrightarrow> low_pct_s s = early)))
   \<and> ((\<exists>r. cycle_body btc c = Inr r) \<longleftrightarrow>
        has_value (map pct (accum btc c))
        \<and> (post_top btc c = [] \<or> has_value (map pct (post_top btc c))))
   \<and> ((\<exists>s. phase_body df b = Inr (Some s)) \<longleftrightarrow>
        10 \<le> length (stock_slice df b) \<and> has_value (map pct_s (first200 df b))
        \<and> (after200 df b = [] \<or> has_value (map pct_s (after200 df b))))
   \<and> (has_value (map pct (accum btc c)) \<and> has_value (map pct (post_top btc c)) \<longrightarrow>
        (\<exists>r late early. cycle_body btc c = Inr r
           \<and> is_window_min late (map pct (post_top btc c))
           \<and> is_window_min early (map pct (accum btc c))
           \<and> bear_low_pct r = Some late
           \<and> held r = Some (fl_gt late early)))
   \<and> (10 \<le> length (stock_slice df b) \<and> has_value (map pct_s (first200 df b))
        \<and> has_value (map pct_s (after200 df b)) \<longrightarrow>
        (\<exists>s late early. phase_body df b = Inr (Some s)
           \<and> is_window_min late (map pct_s (after200 df b))
           \<and> is_window_min early (map pct_s (first200 df b))
           \<and> after_low s = Some late
           \<and> held_s s = Some (fl_gt late early)))"
proof (intro conjI)
  show "cycle_body btc c = Inr r \<and> post_top btc c \<noteq> [] \<longrightarrow>
      (\<exists>late early. bear_low_pct r = Some late
         \<and> is_window_min late (map pct (post_top btc c))
         \<and> is_window_min early (map pct (accum btc c))
         \<and> held r = Some (fl_gt late (low_pct r))
         \<and> held r = Some (fl_gt late early)
         \<and> (late = early \<longrightarrow> held r = Some False)
         \<and> (PInf \<notin> set (map pct (accum btc c)) \<longrightarrow> low_pct r = early))"
    using verdict_of_returned_body [of btc c r] by blast
  show "phase_body df b = Inr (Some s) \<and> after200 df b \<noteq> [] \<longrightarrow>
      (\<exists>late early. after_low s = Some late
         \<and> is_window_min late (map pct_s (after200 df b))
         \<and> is_window_min early (map pct_s (first200 df b))
         \<and> held_s s = Some (fl_gt late (low_pct_s s))
         \<and> held_s s = Some (fl_gt late early)
         \<and> (late = early \<longrightarrow> held_s s = Some False)
         \<and> (PInf \<notin> set (map pct_s (first200 df b)) \<longrightarrow> low_pct_s s = early))"
    using verdict_of_returned_body [of _ _ _ df b s] by blast
  show "(\<exists>r. cycle_body btc c = Inr r) \<longleftrightarrow>
        has_value (map pct (accum btc c))
        \<and> (post_top btc c = [] \<or> has_value (map pct (post_top btc c)))"
    by (rule cycle_body_returns_iff)
  show "(\<exists>s. phase_body df b = Inr (Some s)) \<longleftrightarrow>
        10 \<le> length (stock_slice df b) \<and> has_value (map pct_s (first200 df b))
        \<and> (after200 df b = [] \<or> has_value (map pct_s (after200 df b)))"
    by (rule phase_body_returns_iff)
  show "has_value (map pct (accum btc c)) \<and> has_value (map pct (post_top btc c)) \<longrightarrow>
        (\<exists>r late early. cycle_body btc c = Inr r
           \<and> is_window_min late (map pct (post_top btc c))
           \<and> is_window_min early (map pct (accum btc c))
           \<and> bear_low_pct r = Some late
           \<and> held r = Some (fl_gt late early))"
  proof
    assume h: "has_value (map pct (accum btc c)) \<and> has_value (map pct (post_top btc c))"
    then obtain r where ret: "cycle_body btc c = Inr r"
      using cycle_body_returns_iff [of btc c] by blast
    from h have ne: "post_top btc c \<noteq> []"
      by (auto simp: has_value_def)
    from verdict_of_returned_body [of btc c r] ret ne
    obtain late early where "bear_low_pct r = Some late"
      and "is_window_min late (map pct (post_top btc c))"
      and "is_window_min early (map pct (accum btc c))"
      and "held r = Some (fl_gt late early)"
      by blast
    with ret show "\<exists>r late early. cycle_body btc c = Inr r
           \<and> is_window_min late (map pct (post_top btc c))
           \<and> is_window_min early (map pct (accum btc c))
           \<and> bear_low_pct r = Some late
           \<and> held r = Some (fl_gt late early)"
      by blast
  qed
  show "10 \<le> length (stock_slice df b) \<and> has_value (map pct_s (first200 df b))
        \<and> has_value (map pct_s (after200 df b)) \<longrightarrow>
        (\<exists>s late early. phase_body df b = Inr (Some s)
           \<and> is_window_min late (map pct_s (after200 df b))
           \<and> is_window_min early (map pct_s (first200 df b))
           \<and> after_low s = Some late
           \<and> held_s s = Some (fl_gt late early))"
  proof
    assume h: "10 \<le> length (stock_slice df b) \<and> has_value (map pct_s (first200 df b))
        \<and> has_value (map pct_s (after200 df b))"
    then obtain s where ret: "phase_body df b = Inr (Some s)"
      using phase_body_returns_iff [of df b] by blast
    from h have ne: "after200 df b \<noteq> []"
      by (auto simp: has_value_def)
    from verdict_of_returned_body [of _ _ _ df b s] ret ne
    obtain late early where "after_low s = Some late"
      and "is_window_min late (map pct_s (after200 df b))"
      and "is_window_min early (map pct_s (first200 df b))"
      and "held_s s = Some (fl_gt late early)"
      by blast
    with ret show "\<exists>s late early. phase_body df b = Inr (Some s)
           \<and> is_window_min late (map pct_s (after200 df b))
           \<and> is_window_min early (map pct_s (first200 df b))
           \<and> after_low s = Some late
           \<and> held_s s = Some (fl_gt late early)"
      by blast
  qed
qed

text \<open>
  A cycle where the late low (day 800, 40) equals the early low (day 50, 40): not held.
  A phase of 202 trading days where the late low is above the early low: held.
\<close>

theorem support_verdict_strict_witness:
  "cycle_body btc_5 cycle_0 =
     Inr \<lparr>low_pct = Fin (- 60), low_day = 50, low_price = Fin 40,
           bear_low_pct = Some (Fin (- 60)), bear_low_day = Some 800,
           bear_low_price = Some (Fin 40), held = Some False\<rparr>
   \<and> post_top btc_5 cycle_0 \<noteq> []
   \<and> is_window_min (Fin (- 60)) (map pct (post_top btc_5 cycle_0))
   \<and> is_window_min (Fin (- 60)) (map pct (accum btc_5 cycle_0))
   \<and> has_value (map pct (accum btc_5 cycle_0))
   \<and> has_value (map pct (post_top btc_5 cycle_0))
   \<and> phase_body df_202 0 =
     Inr (Some \<lparr>low_pct_s = Fin (- 10), low_td = 150, low_price_s = Fin 90,
                 after_low = Some (Fin (- 5)), after_low_td = Some 201,
                 after_low_px = Some (Fin 95), held_s = Some True\<rparr>)
   \<and> after200 df_202 0 \<noteq> []
   \<and> is_window_min (Fin (- 5)) (map pct_s (after200 df_202 0))
   \<and> is_window_min (Fin (- 10)) (map pct_s (first200 df_202 0))
   \<and> 10 \<le> length (stock_slice df_202 0)
   \<and> has_value (map pct_s (first200 df_202 0))
   \<and> has_value (map pct_s (after200 df_202 0))"
proof -
  let ?r = "\<lparr>low_pct = Fin (- 60), low_day = 50, low_price = Fin 40,
           bear_low_pct = Some (Fin (- 60)), bear_low_day = Some 800,
           bear_low_price = Some (Fin 40), held = Some False\<rparr>"
  let ?s = "\<lparr>low_pct_s = Fin (- 10), low_td = 150, low_price_s = Fin 90,
                 after_low = Some (Fin (- 5)), after_low_td = Some 201,
                 after_low_px = Some (Fin 95), held_s = Some True\<rparr>"
  note inst = support_verdict_strict [of btc_5 cycle_0 ?r df_202 0 ?s]
  have b1: "cycle_body btc_5 cycle_0 = Inr ?r"
    by code_simp
  have b2: "post_top btc_5 cycle_0 \<noteq> []"
    by code_simp
  have b3: "PInf \<notin> set (map pct (accum btc_5 cycle_0))"
    by code_simp
  have s1: "phase_body df_202 0 = Inr (Some ?s)"
    by code_simp
  have s2: "after200 df_202 0 \<noteq> []"
    by code_simp
  have s3: "PInf \<notin> set (map pct_s (first200 df_202 0))"
    by code_simp
  from inst b1 b2 b3 have m: "is_window_min (Fin (- 60)) (map pct (post_top btc_5 cycle_0))"
    "is_window_min (Fin (- 60)) (map pct (accum btc_5 cycle_0))"
    by auto
  from inst s1 s2 s3 have n: "is_window_min (Fin (- 5)) (map pct_s (after200 df_202 0))"
    "is_window_min (Fin (- 10)) (map pct_s (first200 df_202 0))"
    by auto
  from inst b1 b2 have hb: "has_value (map pct (accum btc_5 cycle_0))"
    "has_value (map pct (post_top btc_5 cycle_0))"
    by blast+
  from inst s1 s2 have hs: "10 \<le> length (stock_slice df_202 0)"
    "has_value (map pct_s (first200 df_202 0))" "has_value (map pct_s (after200 df_202 0))"
    by blast+
  from b1 b2 s1 s2 m n hb hs show ?thesis
    by simp
qed

text \<open>
  C2.  When no retained point lies beyond the second anchor offset, a loop body that
  returns gives no verdict and no late extremum (never the verdict false); it returns as
  soon as the early window holds a number.
\<close>

theorem empty_late_window_no_verdict:
  "(post_top btc c = [] \<longrightarrow>
      (\<forall>r. cycle_body btc c = Inr r \<longrightarrow>
          held r = None \<and> bear_low_pct r = None \<and> bear_low_day r = None
          \<and> bear_low_price r = None)
      \<and> ((\<exists>r. cycle_body btc c = Inr r) \<longleftrightarrow> has_value (map pct (accum btc c))))
   \<and> (after200 df b = [] \<longrightarrow>
      (\<forall>s. phase_body df b = Inr (Some s) \<longrightarrow>
          held_s s = None \<and> after_low s = None \<and> after_low_td s = None)
      \<and> ((\<exists>s. phase_body df b = Inr (Some s)) \<longleftrightarrow>
            10 \<le> length (stock_slice df b) \<and> has_value (map pct_s (first200 df b))))"
proof (intro conjI impI allI)
  fix r assume "post_top btc c = []" and "cycle_body btc c = Inr r"
  then show "held r = None" and "bear_low_pct r = None" and "bear_low_day r = None"
    and "bear_low_price r = None"
    by (simp_all add: cycle_body_no_late)
next
  assume "post_top btc c = []"
  then show "(\<exists>r. cycle_body btc c = Inr r) \<longleftrightarrow> has_value (map pct (accum btc c))"
    by (simp add: cycle_body_returns_iff)
next
  fix s assume "after200 df b = []" and "phase_body df b = Inr (Some s)"
  then show "held_s s = None" and "after_low s = None" and "after_low_td s = None"
    by (simp_all add: phase_body_no_late)
next
  assume "after200 df b = []"
  then show "(\<exists>s. phase_body df b = Inr (Some s)) \<longleftrightarrow>
      10 \<le> length (stock_slice df b) \<and> has_value (map pct_s (first200 df b))"
    by (simp add: phase_body_returns_iff)
qed

text \<open>
  A cycle whose top (day 900) lies beyond the last point, and a phase of ten trading days.
\<close>

theorem empty_late_window_no_verdict_witness:
  "post_top btc_5 cycle_late_top = []
   \<and> cycle_body btc_5 cycle_late_top =
       Inr \<lparr>low_pct = Fin (- 60), low_day = 50, low_price = Fin 40,
             bear_low_pct = None, bear_low_day = None, bear_low_price = None,
             held = None\<rparr>
   \<and> has_value (map pct (accum btc_5 cycle_late_top))
   \<and> after200 df_10 0 = []
   \<and> phase_body df_10 0 =
       Inr (Some \<lparr>low_pct_s = Fin (- 20), low_td = 3, low_price_s = Fin 80,
                   after_low = None, after_low_td = None, after_low_px = None,
                   held_s = None\<rparr>)
   \<and> has_value (map pct_s (first200 df_10 0))"
proof -
  have b1: "post_top btc_5 cycle_late_top = []"
    by code_simp
  have b2: "cycle_body btc_5 cycle_late_top =
       Inr \<lparr>low_pct = Fin (- 60), low_day = 50, low_price = Fin 40,
             bear_low_pct = None, bear_low_day = None, bear_low_price = None,
             held = None\<rparr>"
    by code_simp
  have s1: "after200 df_10 0 = []"
    by code_simp
  have s2: "phase_body df_10 0 =
       Inr (Some \<lparr>low_pct_s = Fin (- 20), low_td = 3, low_price_s = Fin 80,
                   after_low = None, after_low_td = None, after_low_px = None,
                   held_s = None\<rparr>)"
    by code_simp
  from empty_late_window_no_verdict [of btc_5 cycle_late_top df_10 0] b1 b2 s1 s2
  show ?thesis by auto
qed

text \<open>
  C3.  The early extremum is a row of the early window with the minimum percent of that
  window; no earlier row of the window has that percent, and with the table in ascending
  date order its offset is the smallest offset at which the minimum is attained.  (The
  percentages of the window are finite or NaN here, as they are for every reference price
  other than zero and prices that are not infinite.)
\<close>

theorem early_extremum_first_minimum:
  "(sorted (map date btc) \<and> cycle_body btc c = Inr r
      \<and> PInf \<notin> set (map pct (accum btc c)) \<longrightarrow>
      (\<exists>i < length (accum btc c).
          low_pct r = pct (accum btc c ! i) \<and> low_day r = days (accum btc c ! i)
          \<and> low_price r = btc_price (accum btc c ! i)
          \<and> is_window_min (low_pct r) (map pct (accum btc c))
          \<and> (\<forall>j < i. pct (accum btc c ! j) \<noteq> low_pct r)
          \<and> (\<forall>x \<in> set (accum btc c). pct x = low_pct r \<longrightarrow> low_day r \<le> days x)
          \<and> 0 \<le> low_day r \<and> low_day r \<le> 200))
   \<and> (phase_body df b = Inr (Some s) \<and> PInf \<notin> set (map pct_s (first200 df b)) \<longrightarrow>
      (\<exists>i < length (first200 df b).
          low_pct_s s = pct_s (first200 df b ! i) \<and> low_td s = td (first200 df b ! i)
          \<and> low_price_s s = price (first200 df b ! i)
          \<and> is_window_min (low_pct_s s) (map pct_s (first200 df b))
          \<and> (\<forall>j < i. pct_s (first200 df b ! j) \<noteq> low_pct_s s)
          \<and> (\<forall>x \<in> set (first200 df b). pct_s x = low_pct_s s \<longrightarrow> low_td s \<le> td x)
          \<and> low_td s \<le> 200))
   \<and> ((\<exists>r. cycle_body btc c = Inr r) \<longleftrightarrow>
        has_value (map pct (accum btc c))
        \<and> (post_top btc c = [] \<or> has_value (map pct (post_top btc c))))
   \<and> ((\<exists>s. phase_body df b = Inr (Some s)) \<longleftrightarrow>
        10 \<le> length (stock_slice df b) \<and> has_value (map pct_s (first200 df b))
        \<and> (after200 df b = [] \<or> has_value (map pct_s (after200 df b))))
   \<and> (top_price c \<noteq> 0 \<and> (\<forall>x \<in> set btc. btc_price x \<noteq> PInf \<and> btc_price x \<noteq> NInf) \<longrightarrow>
        PInf \<notin> set (map pct (accum btc c)))
   \<and> (price (stock_slice df b ! 0) = Fin bottom_price \<and> bottom_price \<noteq> 0
        \<and> (\<forall>x \<in> set df. price x \<noteq> PInf \<and> price x \<noteq> NInf) \<longrightarrow>
        PInf \<notin> set (map pct_s (first200 df b)))"
proof (intro conjI impI; (elim conjE)?)
  assume srt: "sorted (map date btc)" and ret: "cycle_body btc c = Inr r"
    and fin: "PInf \<notin> set (map pct (accum btc c))"
  from ret obtain i where i: "idxmin (map pct (accum btc c)) = Inr i"
    and ilen: "i < length (accum btc c)"
    and lo: "low_pct r = pct (accum btc c ! i)" "low_day r = days (accum btc c ! i)"
      "low_price r = btc_price (accum btc c ! i)"
    by (rule cycle_body_low)
  have m: "is_window_min (low_pct r) (map pct (accum btc c))"
    using idxmin_window_min(1) [OF i fin] ilen lo by simp
  have first: "\<forall>j < i. pct (accum btc c ! j) \<noteq> low_pct r"
    using idxmin_window_min(2) [OF i fin] ilen lo by auto
  have least: "\<forall>x \<in> set (accum btc c). pct x = low_pct r \<longrightarrow> low_day r \<le> days x"
    using first_min_smallest_offset [OF accum_sorted [OF srt] i fin] lo by auto
  have "accum btc c ! i \<in> set (accum btc c)"
    using ilen by simp
  then have "0 \<le> low_day r \<and> low_day r \<le> 200"
    using accum_window lo by auto
  with ilen lo m first least
  show "\<exists>i < length (accum btc c).
          low_pct r = pct (accum btc c ! i) \<and> low_day r = days (accum btc c ! i)
          \<and> low_price r = btc_price (accum btc c ! i)
          \<and> is_window_min (low_pct r) (map pct (accum btc c))
          \<and> (\<forall>j < i. pct (accum btc c ! j) \<noteq> low_pct r)
          \<and> (\<forall>x \<in> set (accum btc c). pct x = low_pct r \<longrightarrow> low_day r \<le> days x)
          \<and> 0 \<le> low_day r \<and> low_day r \<le> 200"
    by blast
next
  assume ret: "phase_body df b = Inr (Some s)"
    and fin: "PInf \<notin> set (map pct_s (first200 df b))"
  from ret obtain i where i: "idxmin (map pct_s (first200 df b)) = Inr i"
    and ilen: "i < length (first200 df b)"
    and lo: "low_pct_s s = pct_s (first200 df b ! i)" "low_td s = td (first200 df b ! i)"
      "low_price_s s = price (first200 df b ! i)"
    by (rule phase_body_low)
  have m: "is_window_min (low_pct_s s) (map pct_s (first200 df b))"
    using idxmin_window_min(1) [OF i fin] ilen lo by simp
  have first: "\<forall>j < i. pct_s (first200 df b ! j) \<noteq> low_pct_s s"
    using idxmin_window_min(2) [OF i fin] ilen lo by auto
  have least: "\<forall>x \<in> set (first200 df b). pct_s x = low_pct_s s \<longrightarrow> low_td s \<le> td x"
    using first_min_smallest_offset [OF first200_sorted i fin] lo by auto
  have "first200 df b ! i \<in> set (first200 df b)"
    using ilen by simp
  then have "low_td s \<le> 200"
    using first200_window lo by auto
  with ilen lo m first least
  show "\<exists>i < length (first200 df b).
          low_pct_s s = pct_s (first200 df b ! i) \<and> low_td s = td (first200 df b ! i)
          \<and> low_price_s s = price (first200 df b ! i)
          \<and> is_window_min (low_pct_s s) (map pct_s (first200 df b))
          \<and> (\<forall>j < i. pct_s (first200 df b ! j) \<noteq> low_pct_s s)
          \<and> (\<forall>x \<in> set (first200 df b). pct_s x = low_pct_s s \<longrightarrow> low_td s \<le> td x)
          \<and> low_td s \<le> 200"
    by blast
next
  show "(\<exists>r. cycle_body btc c = Inr r) \<longleftrightarrow>
        has_value (map pct (accum btc c))
        \<and> (post_top btc c = [] \<or> has_value (map pct (post_top btc c)))"
    by (rule cycle_body_returns_iff)
next
  show "(\<exists>s. phase_body df b = Inr (Some s)) \<longleftrightarrow>
        10 \<le> length (stock_slice df b) \<and> has_value (map pct_s (first200 df b))
        \<and> (after200 df b = [] \<or> has_value (map pct_s (after200 df b)))"
    by (rule phase_body_returns_iff)
next
  assume "top_price c \<noteq> 0"
    and "\<forall>x \<in> set btc. btc_price x \<noteq> PInf \<and> btc_price x \<noteq> NInf"
  then show "PInf \<notin> set (map pct (accum btc c))"
    by (rule accum_no_PInf)
next
  assume "price (stock_slice df b ! 0) = Fin bottom_price" and "bottom_price \<noteq> 0"
    and "\<forall>x \<in> set df. price x \<noteq> PInf \<and> price x \<noteq> NInf"
  then show "PInf \<notin> set (map pct_s (first200 df b))"
    by (rule first200_no_PInf)
qed

text \<open>
  The minimum percent -60 is attained on days 50 and 120 of the sample table, and -20 on
  trading days 3 and 7 of the sample phase: the first of each is reported.
\<close>

theorem early_extremum_first_minimum_witness:
  "sorted (map date btc_tie)
   \<and> cycle_body btc_tie cycle_late_top =
       Inr \<lparr>low_pct = Fin (- 60), low_day = 50, low_price = Fin 40,
             bear_low_pct = None, bear_low_day = None, bear_low_price = None,
             held = None\<rparr>
   \<and> map pct (accum btc_tie cycle_late_top) = [Fin 0, Fin (- 60), Fin (- 60), Fin (- 40)]
   \<and> is_window_min (Fin (- 60)) (map pct (accum btc_tie cycle_late_top))
   \<and> phase_body df_10 0 =
       Inr (Some \<lparr>low_pct_s = Fin (- 20), low_td = 3, low_price_s = Fin 80,
                   after_low = None, after_low_td = None, after_low_px = None,
                   held_s = None\<rparr>)
   \<and> PInf \<notin> set (map pct_s (first200 df_10 0))
   \<and> is_window_min (Fin (- 20)) (map pct_s (first200 df_10 0))
   \<and> top_price cycle_late_top \<noteq> 0
   \<and> price (stock_slice df_10 0 ! 0) = Fin 100"
proof -
  let ?r = "\<lparr>low_pct = Fin (- 60), low_day = 50, low_price = Fin 40,
             bear_low_pct = None, bear_low_day = None, bear_low_price = None,
             held = None\<rparr>"
  let ?s = "\<lparr>low_pct_s = Fin (- 20), low_td = 3, low_price_s = Fin 80,
                   after_low = None, after_low_td = None, after_low_px = None,
                   held_s = None\<rparr>"
  have b0: "sorted (map date btc_tie)"
    by code_simp
  have b1: "cycle_body btc_tie cycle_late_top = Inr ?r"
    by code_simp
  have b2: "map pct (accum btc_tie cycle_late_top) = [Fin 0, Fin (- 60), Fin (- 60), Fin (- 40)]"
    by code_simp
  have b3: "top_price cycle_late_top \<noteq> 0"
    by code_simp
  have b4: "\<forall>x \<in> set btc_tie. btc_price x \<noteq> PInf \<and> btc_price x \<noteq> NInf"
    by code_simp
  have s1: "phase_body df_10 0 = Inr (Some ?s)"
    by code_simp
  have s2: "price (stock_slice df_10 0 ! 0) = Fin 100"
    by code_simp
  have s3: "\<forall>x \<in> set df_10. price x \<noteq> PInf \<and> price x \<noteq> NInf"
    by code_simp
  note inst = early_extremum_first_minimum [of btc_tie cycle_late_top ?r df_10 0 ?s 100]
  from inst s2 s3 have s4: "PInf \<notin> set (map pct_s (first200 df_10 0))"
    by simp
  from inst b3 b4 have b5: "PInf \<notin> set (map pct (accum btc_tie cycle_late_top))"
    by blast
  from inst b0 b1 b5 have "is_window_min (Fin (- 60)) (map pct (accum btc_tie cycle_late_top))"
    by auto
  moreover from inst s1 s4 have "is_window_min (Fin (- 20)) (map pct_s (first200 df_10 0))"
    by auto
  ultimately show ?thesis
    using b0 b1 b2 b3 s1 s2 s4 by simp
qed

text \<open>
  C4 (as stated: a reference price of zero or below makes the normalisation fail fast).
  It does not: with the reference price -100 the loop body returns percentages and a verdict.
\<close>

theorem fail_fast_on_bad_reference_counterexample:
  "top_price cycle_neg \<le> 0
   \<and> map pct (btc_chunk btc_scenario cycle_neg) =
       [Fin (- 200), Fin (- 140), Fin (- 160), Fin (- 190), Fin (- 130)]
   \<and> cycle_body btc_scenario cycle_neg =
       Inr \<lparr>low_pct = Fin (- 200), low_day = 0, low_price = Fin 100,
             bear_low_pct = Some (Fin (- 190)), bear_low_day = Some 400,
             bear_low_price = Some (Fin 90), held = Some True\<rparr>"
  by code_simp

text \<open>
  C4 (amended).  The normalisation has no guard on the reference price and raises for no
  value of it: every row of the slice gets a percent.  For a finite value and a reference
  price other than zero, negative ones included, the percent is
  \<open>(v - ref) / ref * 100\<close>; for the reference price zero it is plus infinity, minus
  infinity or NaN as the value is positive, negative or zero.
\<close>

theorem normalisation_has_no_guard:
  "pct_from (Fin ref) (Fin v) =
     (if ref \<noteq> 0 then Fin ((v - ref) / ref * 100)
      else if 0 < v then PInf else if v < 0 then NInf else NaN)
   \<and> map pct (btc_chunk btc c) =
       map (\<lambda>r. pct_from (Fin (top_price c)) (btc_price r))
         (filter (\<lambda>r. halving c \<le> date r \<and> date r \<le> cycle_end c) btc)
   \<and> map pct_s (stock_chunk sl) = map (\<lambda>r. pct_from (price (sl ! 0)) (price r)) sl"
proof (intro conjI)
  show "pct_from (Fin ref) (Fin v) =
     (if ref \<noteq> 0 then Fin ((v - ref) / ref * 100)
      else if 0 < v then PInf else if v < 0 then NInf else NaN)"
    by (rule pct_from_finite)
  show "map pct (btc_chunk btc c) =
       map (\<lambda>r. pct_from (Fin (top_price c)) (btc_price r))
         (filter (\<lambda>r. halving c \<le> date r \<and> date r \<le> cycle_end c) btc)"
    by (simp add: btc_chunk_def comp_def)
  have "map pct_s (stock_chunk sl) =
      map (\<lambda>r. pct_from (price (sl ! 0)) (price r)) (map snd (enumerate 0 sl))"
    unfolding map_map by (simp add: stock_chunk_def Let_def comp_def case_prod_unfold)
  then show "map pct_s (stock_chunk sl) = map (\<lambda>r. pct_from (price (sl ! 0)) (price r)) sl"
    by simp
qed

text \<open>With the reference price zero the sample cycle gets infinite percentages, and no error.\<close>

theorem normalisation_has_no_guard_witness:
  "pct_from (Fin 0) (Fin 40) = PInf
   \<and> pct_from (Fin (- 100)) (Fin 40) = Fin (- 140)
   \<and> map pct (btc_chunk btc_scenario cycle_zero) = [PInf, PInf, PInf, PInf, PInf]"
proof -
  have "filter (\<lambda>r. halving cycle_zero \<le> date r \<and> date r \<le> cycle_end cycle_zero) btc_scenario
      = btc_scenario"
    by code_simp
  moreover have "map (\<lambda>r. pct_from (Fin (top_price cycle_zero)) (btc_price r)) btc_scenario
      = [PInf, PInf, PInf, PInf, PInf]"
    by code_simp
  ultimately show ?thesis
    using normalisation_has_no_guard [of 0 40 btc_scenario cycle_zero "[]"]
      normalisation_has_no_guard [of "- 100" 40 "[]" cycle_zero "[]"]
    by simp
qed

text \<open>
  C5.  The scenario of the specification: the early extremum is day 50 at -60 percent,
  the late extremum day 800 at -70 percent, not held; with the last value 70 the late
  extremum is -30 percent, held.  It is run through the loop body of
  btc\_accumulation\_support.py (halving on day 0, top on day 200, top price 100), and
  through the statistics of stocks\_accumulation.py on the five normalised points.
\<close>

theorem spec_scenario_verdicts:
  "cycle_body btc_scenario cycle_0 =
     Inr \<lparr>low_pct = Fin (- 60), low_day = 50, low_price = Fin 40,
           bear_low_pct = Some (Fin (- 70)), bear_low_day = Some 800,
           bear_low_price = Some (Fin 30), held = Some False\<rparr>
   \<and> cycle_body btc_scenario_70 cycle_0 =
     Inr \<lparr>low_pct = Fin (- 60), low_day = 50, low_price = Fin 40,
           bear_low_pct = Some (Fin (- 30)), bear_low_day = Some 800,
           bear_low_price = Some (Fin 70), held = Some True\<rparr>
   \<and> map days (accum btc_scenario cycle_0) = [0, 50, 200]
   \<and> map days (post_top btc_scenario cycle_0) = [400, 800]
   \<and> map pct_s (scenario_chunk 30) = [Fin 0, Fin (- 60), Fin (- 40), Fin (- 10), Fin (- 70)]
   \<and> phase_lows (scenario_chunk 30) =
     Inr \<lparr>low_pct_s = Fin (- 60), low_td = 50, low_price_s = Fin 40,
           after_low = Some (Fin (- 70)), after_low_td = Some 800,
           after_low_px = Some (Fin 30), held_s = Some False\<rparr>
   \<and> phase_lows (scenario_chunk 70) =
     Inr \<lparr>low_pct_s = Fin (- 60), low_td = 50, low_price_s = Fin 40,
           after_low = Some (Fin (- 30)), after_low_td = Some 800,
           after_low_px = Some (Fin 70), held_s = Some True\<rparr>"
  by code_simp

text \<open>
  C6 (as stated: the percent of every point converts back to its value within a relative
  tolerance of 1e-9).  In float64 it does not: with the reference price 1 the value
  \<open>1 / 2 ^ 57\<close> is absorbed by the subtraction, its percent is -100 and the value
  converted back is 0.
\<close>

theorem round_trip_tolerance_counterexample:
  "pct_from_f64 1 (1 / 2 ^ 57) = - 100
   \<and> value_from_pct_f64 1 (pct_from_f64 1 (1 / 2 ^ 57)) = 0
   \<and> spec_percent_to_value 1 (pct_from_f64 1 (1 / 2 ^ 57)) = 0
   \<and> \<bar>(1::real) / 2 ^ 57\<bar> / 10 ^ 9
       < \<bar>value_from_pct_f64 1 (pct_from_f64 1 (1 / 2 ^ 57)) - 1 / 2 ^ 57\<bar>"
  unfolding pct_from_f64_absorbed value_from_pct_f64_minus_hundred
  by (simp add: spec_percent_to_value_def)

text \<open>
  C6 (amended).  With a reference price above zero: over exact arithmetic the conversion
  of the specification takes the percent of every finite value back to that value; in
  float64 a value equal to the reference price has percent exactly 0, and the value
  converted back is within a relative tolerance of 1e-9 whenever the value is not more
  than a million times closer to zero than to the reference price
  (\<open>\<bar>v - ref\<bar> \<le> 10 ^ 6 * \<bar>v\<bar>\<close>).
\<close>

theorem percent_round_trip:
  "(0 < ref \<longrightarrow> pct_from_f64 ref ref = 0)
   \<and> (0 < ref \<and> \<bar>v - ref\<bar> \<le> 10 ^ 6 * \<bar>v\<bar> \<longrightarrow>
        \<bar>value_from_pct_f64 ref (pct_from_f64 ref v) - v\<bar> \<le> \<bar>v\<bar> / 10 ^ 9)
   \<and> (0 < ref \<longrightarrow>
      (\<exists>p. pct_from (Fin ref) (Fin v) = Fin p \<and> spec_percent_to_value ref p = v)
      \<and> pct_from (Fin ref) (Fin ref) = Fin 0)
   \<and> (0 < top_price c \<longrightarrow>
        (\<forall>x \<in> set (btc_chunk btc c). \<forall>v. btc_price x = Fin v \<longrightarrow>
           (\<exists>p. pct x = Fin p \<and> spec_percent_to_value (top_price c) p = v
                \<and> (v = top_price c \<longrightarrow> p = 0))))
   \<and> (price (sl ! 0) = Fin bottom_price \<and> 0 < bottom_price \<longrightarrow>
        (\<forall>x \<in> set (stock_chunk sl). \<forall>v. price x = Fin v \<longrightarrow>
           (\<exists>p. pct_s x = Fin p \<and> spec_percent_to_value bottom_price p = v
                \<and> (v = bottom_price \<longrightarrow> p = 0))))"
proof -
  have "0 < ref \<longrightarrow> pct_from_f64 ref ref = 0"
    by (simp add: pct_from_f64_reference)
  moreover have "0 < ref \<and> \<bar>v - ref\<bar> \<le> 10 ^ 6 * \<bar>v\<bar> \<longrightarrow>
        \<bar>value_from_pct_f64 ref (pct_from_f64 ref v) - v\<bar> \<le> \<bar>v\<bar> / 10 ^ 9"
    using round_trip_f64 [of ref v] by simp
  ultimately show ?thesis
    using percent_round_trip_exact [of ref v c btc sl bottom_price] by blast
qed

text \<open>
  The reference price 100 and the value 40: percent -60 over exact arithmetic, and within
  the tolerance in float64.
\<close>

theorem percent_round_trip_witness:
  "(0::real) < 100
   \<and> \<bar>40 - 100::real\<bar> \<le> 10 ^ 6 * \<bar>40\<bar>
   \<and> pct_from_f64 100 100 = 0
   \<and> \<bar>value_from_pct_f64 100 (pct_from_f64 100 40) - 40\<bar> \<le> \<bar>40\<bar> / 10 ^ 9
   \<and> pct_from (Fin 100) (Fin 40) = Fin (- 60)
   \<and> spec_percent_to_value 100 (- 60) = 40
   \<and> pct_from (Fin 100) (Fin 100) = Fin 0
   \<and> 0 < top_price cycle_0
   \<and> (\<exists>x. x \<in> set (btc_chunk btc_scenario cycle_0) \<and> btc_price x = Fin 40
          \<and> pct x = Fin (- 60) \<and> spec_percent_to_value (top_price cycle_0) (- 60) = 40)
   \<and> price (df_10 ! 0) = Fin 100
   \<and> (\<exists>x. x \<in> set (stock_chunk df_10) \<and> price x = Fin 80
          \<and> pct_s x = Fin (- 20) \<and> spec_percent_to_value 100 (- 20) = 80)"
proof -
  let ?x = "\<lparr>date = 50, btc_price = Fin 40, days = 50, pct = Fin (- 60)\<rparr>"
  let ?y = "\<lparr>index = 3, price = Fin 80, td = 3, pct_s = Fin (- 20)\<rparr>"
  note inst = percent_round_trip [of 100 40 cycle_0 btc_scenario df_10 100]
  have a: "(0::real) < 100" by simp
  have n: "\<bar>40 - 100::real\<bar> \<le> 10 ^ 6 * \<bar>40\<bar>" by simp
  have b: "0 < top_price cycle_0" by code_simp
  have x: "?x \<in> set (btc_chunk btc_scenario cycle_0)" by code_simp
  have c: "price (df_10 ! 0) = Fin 100" by code_simp
  have y: "?y \<in> set (stock_chunk df_10)" by code_simp
  have v: "spec_percent_to_value 100 (- 60) = 40" "spec_percent_to_value 100 (- 20) = 80"
    "top_price cycle_0 = 100"
    by (simp_all add: spec_percent_to_value_def cycle_0_def)
  from inst a n
  have f: "pct_from_f64 100 100 = 0"
    "\<bar>value_from_pct_f64 100 (pct_from_f64 100 40) - 40\<bar> \<le> \<bar>40\<bar> / 10 ^ 9"
    by blast+
  from inst a
  have p1: "pct_from (Fin 100) (Fin 40) = Fin (- 60)" "pct_from (Fin 100) (Fin 100) = Fin 0"
    by (auto simp: spec_percent_to_value_def)
  have "\<exists>x. x \<in> set (btc_chunk btc_scenario cycle_0) \<and> btc_price x = Fin 40
          \<and> pct x = Fin (- 60) \<and> spec_percent_to_value (top_price cycle_0) (- 60) = 40"
    using x v by (intro exI [of _ ?x]) simp
  moreover have "\<exists>x. x \<in> set (stock_chunk df_10) \<and> price x = Fin 80
          \<and> pct_s x = Fin (- 20) \<and> spec_percent_to_value 100 (- 20) = 80"
    using y v by (intro exI [of _ ?y]) simp
  ultimately show ?thesis
    using a b c p1 v f by simp
qed

text \<open>
  C7 (as stated: an empty input series or early window always ends the run with a visible
  error, never a silent skip).  In stocks\_accumulation.py the empty frame is skipped.
\<close>

theorem empty_series_is_fatal_counterexample:
  "stock_slice [] 0 = [] \<and> phase_body [] 0 = Inr None"
  by code_simp

text \<open>
  C7 (amended).  In btc\_accumulation\_support.py an empty early window, and so an empty
  table, makes \<^verbatim>\<open>idxmin\<close> raise ValueError, which ends the run.  In
  stocks\_accumulation.py a slice of fewer than ten rows, the empty one included, is
  skipped without a message, and a slice of ten rows or more has an early window that is
  not empty.
\<close>

theorem empty_early_window_outcomes:
  "(accum btc c = [] \<longrightarrow> cycle_body btc c = Inl ValueError_argmin_empty)
   \<and> cycle_body [] c = Inl ValueError_argmin_empty
   \<and> (length (stock_slice df b) < 10 \<longleftrightarrow> phase_body df b = Inr None)
   \<and> (10 \<le> length (stock_slice df b) \<longrightarrow> first200 df b \<noteq> [])"
proof (intro conjI impI)
  assume "accum btc c = []"
  then show "cycle_body btc c = Inl ValueError_argmin_empty"
    by (simp add: cycle_body_unfold idxmin_def)
next
  have "accum [] c = []"
    by (simp add: accum_def btc_chunk_def)
  then show "cycle_body [] c = Inl ValueError_argmin_empty"
    by (simp add: cycle_body_unfold idxmin_def)
next
  show "length (stock_slice df b) < 10 \<longleftrightarrow> phase_body df b = Inr None"
    by (simp add: phase_body_skip_iff)
next
  assume "10 \<le> length (stock_slice df b)"
  then show "first200 df b \<noteq> []"
    by (rule first200_nonempty)
qed

text \<open>
  A table that starts on day 300 of the cycle, a frame of nine trading days and one of ten.
\<close>

theorem empty_early_window_outcomes_witness:
  "accum btc_late_start cycle_0 = []
   \<and> cycle_body btc_late_start cycle_0 = Inl ValueError_argmin_empty
   \<and> length (stock_slice df_9 0) < 10
   \<and> phase_body df_9 0 = Inr None
   \<and> 10 \<le> length (stock_slice df_10 0)
   \<and> first200 df_10 0 \<noteq> []"
proof -
  have a: "accum btc_late_start cycle_0 = []"
    by code_simp
  have b: "length (stock_slice df_9 0) < 10"
    by code_simp
  have c: "10 \<le> length (stock_slice df_10 0)"
    by code_simp
  from empty_early_window_outcomes [of btc_late_start cycle_0 df_9 0] a b
  have "cycle_body btc_late_start cycle_0 = Inl ValueError_argmin_empty"
    and "phase_body df_9 0 = Inr None"
    by simp_all
  moreover from empty_early_window_outcomes [of "[]" cycle_0 df_10 0] c
  have "first200 df_10 0 \<noteq> []"
    by simp
  ultimately show ?thesis
    using a b c by simp
qed

lemma mvrv_zone_special:
  "fst (mvrv_zone NaN) = ''SELL ZONE''" and "fst (mvrv_zone PInf) = ''SELL ZONE''"
  and "fst (mvrv_zone NInf) = ''EXTREME FEAR''"
  by (simp_all add: mvrv_zone_def)

text \<open>
  C9.  The zone of a real number: EXTREME FEAR exactly below 0, FAIR VALUE exactly from 0
  to below 3.7, CAUTION exactly from 3.7 to below 7, SELL ZONE exactly from 7 on; every
  argument gets one of the four labels.
\<close>

theorem mvrv_zone_partition:
  "(fst (mvrv_zone (Fin v)) = ''EXTREME FEAR'') = (v < 0)
   \<and> (fst (mvrv_zone (Fin v)) = ''FAIR VALUE'') = (0 \<le> v \<and> v < 3.7)
   \<and> (fst (mvrv_zone (Fin v)) = ''CAUTION'') = (3.7 \<le> v \<and> v < 7)
   \<and> (fst (mvrv_zone (Fin v)) = ''SELL ZONE'') = (7 \<le> v)
   \<and> fst (mvrv_zone x) \<in> {''EXTREME FEAR'', ''FAIR VALUE'', ''CAUTION'', ''SELL ZONE''}"
  by (auto simp: mvrv_zone_def)

text \<open>
  C10.  Every long-term-holder supply value that the two loaders retain is strictly
  positive; a record is retained exactly when its coerced field is strictly positive, so
  a field that is zero, negative or not a number (NaN after coercion) is dropped; the
  latest value and the plotted rows of btc\_onchain\_dashboard.py are strictly positive.
\<close>

theorem lth_supply_retained_positive:
  "(\<forall>r \<in> set (load_lth to_datetime to_numeric raw). strictly_positive (lth_supply r))
   \<and> load_lth to_datetime to_numeric raw =
       map (\<lambda>j. \<lparr>lth_date = to_datetime (d j),
                  lth_supply = to_numeric (longTermHodlerSupplyBtc j)\<rparr>)
         (filter (\<lambda>j. strictly_positive (to_numeric (longTermHodlerSupplyBtc j))) raw)
   \<and> (\<forall>r \<in> set (load_lth_onchain to_datetime to_numeric raw). strictly_positive (value_oc r))
   \<and> set (load_lth_onchain to_datetime to_numeric raw) =
       {\<lparr>date_oc = t, value_oc = to_numeric (longTermHodlerSupplyBtc j)\<rparr> | t j.
          j \<in> set raw \<and> to_datetime (d j) = Some t
          \<and> strictly_positive (to_numeric (longTermHodlerSupplyBtc j))}
   \<and> (\<forall>v. latest_lth (load_lth_onchain to_datetime to_numeric raw) = Inr v
          \<longrightarrow> strictly_positive v)
   \<and> (\<forall>r \<in> set (lth_plot (load_lth_onchain to_datetime to_numeric raw)).
          strictly_positive (value_oc r))
   \<and> \<not> strictly_positive NaN \<and> \<not> strictly_positive (Fin 0)"
proof (intro conjI ballI allI impI)
  fix r assume "r \<in> set (load_lth to_datetime to_numeric raw)"
  then show "strictly_positive (lth_supply r)"
    by (auto simp: load_lth_def fl_gt_zero_iff)
next
  show "load_lth to_datetime to_numeric raw =
       map (\<lambda>j. \<lparr>lth_date = to_datetime (d j),
                  lth_supply = to_numeric (longTermHodlerSupplyBtc j)\<rparr>)
         (filter (\<lambda>j. strictly_positive (to_numeric (longTermHodlerSupplyBtc j))) raw)"
    by (simp add: load_lth_eq fl_gt_zero_iff)
next
  fix r assume "r \<in> set (load_lth_onchain to_datetime to_numeric raw)"
  then show "strictly_positive (value_oc r)"
    by (auto simp: load_lth_onchain_def Let_def fl_gt_zero_iff)
next
  show "set (load_lth_onchain to_datetime to_numeric raw) =
       {\<lparr>date_oc = t, value_oc = to_numeric (longTermHodlerSupplyBtc j)\<rparr> | t j.
          j \<in> set raw \<and> to_datetime (d j) = Some t
          \<and> strictly_positive (to_numeric (longTermHodlerSupplyBtc j))}"
    by (simp add: set_load_lth_onchain fl_gt_zero_iff)
next
  fix v assume "latest_lth (load_lth_onchain to_datetime to_numeric raw) = Inr v"
  then have ne: "load_lth_onchain to_datetime to_numeric raw \<noteq> []"
    and v: "v = value_oc (last (load_lth_onchain to_datetime to_numeric raw))"
    by (auto simp: latest_lth_def split: if_splits)
  from ne have "last (load_lth_onchain to_datetime to_numeric raw)
      \<in> set (load_lth_onchain to_datetime to_numeric raw)"
    by (rule last_in_set)
  with v show "strictly_positive v"
    by (auto simp: load_lth_onchain_def Let_def fl_gt_zero_iff)
next
  fix r assume "r \<in> set (lth_plot (load_lth_onchain to_datetime to_numeric raw))"
  then show "strictly_positive (value_oc r)"
    by (auto simp: lth_plot_def load_lth_onchain_def Let_def fl_gt_zero_iff)
next
  show "\<not> strictly_positive NaN" and "\<not> strictly_positive (Fin 0)"
    by (simp_all add: strictly_positive_def)
qed

text \<open>
  Six records: fields 0, -5, the text n/a and null are dropped, the two positive ones stay.
\<close>

theorem lth_supply_retained_positive_witness:
  "load_lth Some coerce_cell lth_sample =
     [\<lparr>lth_date = Some 17000, lth_supply = Fin 14000000\<rparr>,
      \<lparr>lth_date = Some 15000, lth_supply = Fin 12000000\<rparr>]
   \<and> load_lth_onchain Some coerce_cell lth_sample =
     [\<lparr>date_oc = 15000, value_oc = Fin 12000000\<rparr>,
      \<lparr>date_oc = 17000, value_oc = Fin 14000000\<rparr>]
   \<and> latest_lth (load_lth_onchain Some coerce_cell lth_sample) = Inr (Fin 14000000)
   \<and> strictly_positive (Fin 14000000)
   \<and> list_all (\<lambda>r. strictly_positive (lth_supply r)) (load_lth Some coerce_cell lth_sample)
   \<and> list_all (\<lambda>r. strictly_positive (value_oc r))
       (lth_plot (load_lth_onchain Some coerce_cell lth_sample))"
proof -
  have a: "load_lth Some coerce_cell lth_sample =
     [\<lparr>lth_date = Some 17000, lth_supply = Fin 14000000\<rparr>,
      \<lparr>lth_date = Some 15000, lth_supply = Fin 12000000\<rparr>]"
    by code_simp
  have b: "load_lth_onchain Some coerce_cell lth_sample =
     [\<lparr>date_oc = 15000, value_oc = Fin 12000000\<rparr>,
      \<lparr>date_oc = 17000, value_oc = Fin 14000000\<rparr>]"
    by code_simp
  have c: "latest_lth (load_lth_onchain Some coerce_cell lth_sample) = Inr (Fin 14000000)"
    by code_simp
  from lth_supply_retained_positive [of Some coerce_cell lth_sample] c
  have "strictly_positive (Fin 14000000)"
    and "list_all (\<lambda>r. strictly_positive (lth_supply r)) (load_lth Some coerce_cell lth_sample)"
    and "list_all (\<lambda>r. strictly_positive (value_oc r))
       (lth_plot (load_lth_onchain Some coerce_cell lth_sample))"
    unfolding list_all_iff by blast+
  with a b c show ?thesis by simp
qed

end
